theory Spec2Isabelle
  imports Complex_Main
begin

section \<open>Bulk upload of authentication codes\<close>

text \<open>
  A shallow embedding of the bulk-upload pipeline of the backend:
  \<^item> \<^verbatim>\<open>src/services/bulkUploadService.js\<close>: \<^verbatim>\<open>processBulkUpload\<close>, \<^verbatim>\<open>processCSV\<close>,
    \<^verbatim>\<open>processExcel\<close>, \<^verbatim>\<open>processBatch\<close>, \<^verbatim>\<open>extractCode\<close>, \<^verbatim>\<open>emitProgress\<close>;
  \<^item> \<^verbatim>\<open>src/models/bulkUploadJob.js\<close>: the job schema, \<^verbatim>\<open>updateProgress\<close>, \<^verbatim>\<open>addError\<close>;
  \<^item> the code controller: \<^verbatim>\<open>cancelBulkUpload\<close>, \<^verbatim>\<open>getBulkUploadStatus\<close>.

  JavaScript numbers that count rows are integers (\<open>int\<close>); strings are \<open>string\<close>, one
  \<open>char\<close> per code unit below 256; \<^verbatim>\<open>null\<close> and \<^verbatim>\<open>undefined\<close> are \<open>None\<close>; a thrown
  \<^verbatim>\<open>Error\<close> is the left summand of a sum type. The collections of the database are
  components of a record that every operation takes and returns.
\<close>

subsection \<open>Rows and code extraction\<close>

text \<open>
  A parsed row is an object from column names to cell values, kept as the list of its
  entries in the order \<^verbatim>\<open>Object.values\<close> enumerates them. Both parsers yield strings;
  the spreadsheet reader is configured with \<^verbatim>\<open>defval: null\<close>, so a cell may be \<^verbatim>\<open>null\<close>.
\<close>

type_synonym cell = "string option"
type_synonym row = "(string \<times> cell) list"

datatype js_error = Error string

text \<open>JavaScript truthiness of a cell: \<^verbatim>\<open>undefined\<close>, \<^verbatim>\<open>null\<close> and \<^verbatim>\<open>""\<close> are falsy.\<close>

definition truthy :: "cell \<Rightarrow> bool" where
  "truthy v = (case v of None \<Rightarrow> False | Some s \<Rightarrow> s \<noteq> [])"

text \<open>\<^verbatim>\<open>row.key\<close>: the value stored under the key, \<^verbatim>\<open>undefined\<close> when there is none.\<close>

definition get_key :: "row \<Rightarrow> string \<Rightarrow> cell" where
  "get_key r k = (case map_of r k of None \<Rightarrow> None | Some v \<Rightarrow> v)"

text \<open>\<^verbatim>\<open>Object.values(row)[0]\<close>.\<close>

definition first_value :: "row \<Rightarrow> cell" where
  "first_value r = (case r of [] \<Rightarrow> None | (k, v) # rest \<Rightarrow> v)"

definition column_names :: "string list" where
  "column_names = [''code'', ''Code'', ''CODE'', ''auth_code'', ''authCode'', ''AuthCode'',
     ''authentication_code'', ''Authentication Code'']"

text \<open>\<^verbatim>\<open>a || b || ... || z\<close>: the first truthy operand, the last operand when none is.\<close>

fun or_chain :: "cell list \<Rightarrow> cell \<Rightarrow> cell" where
  "or_chain [] z = z"
| "or_chain (v # vs) z = (if truthy v then v else or_chain vs z)"

definition candidate :: "row \<Rightarrow> cell" where
  "candidate r = or_chain (map (get_key r) column_names) (first_value r)"

text \<open>
  \<^verbatim>\<open>String.prototype.trim\<close> strips white space and line terminators at both ends; among
  the code units below 256 these are 9 to 13, 32 and 160.
\<close>

definition is_space :: "char \<Rightarrow> bool" where
  "is_space c = (of_char c \<in> {9, 10, 11, 12, 13, 32, 160 :: nat})"

definition trim :: "string \<Rightarrow> string" where
  "trim s = rev (dropWhile is_space (rev (dropWhile is_space s)))"

definition length_message :: string where
  "length_message = ''Code length must be between 3-100 characters''"

definition empty_message :: string where
  "empty_message = ''Empty or missing code''"

text \<open>
  \<^verbatim>\<open>extractCode(row)\<close>: \<open>Inr None\<close> is the returned \<^verbatim>\<open>null\<close>, \<open>Inl\<close> the thrown error,
  \<open>Inr (Some c)\<close> the trimmed code.
\<close>

definition extractCode :: "row \<Rightarrow> js_error + string option" where
  "extractCode r =
     (case candidate r of
        None \<Rightarrow> Inr None
      | Some code \<Rightarrow>
          if code = [] then Inr None
          else let trimmed = trim code
               in if length trimmed < 3 \<or> length trimmed > 100
                  then Inl (Error length_message)
                  else Inr (Some trimmed))"

subsection \<open>The job record\<close>

datatype job_status = Pending | Processing | Completed | Failed | Cancelled

record stats =
  processed :: int
  successful :: int
  failed :: int
  duplicates :: int

text \<open>The \<^verbatim>\<open>progress\<close> sub-document; \<open>total_count\<close> is its field \<^verbatim>\<open>total\<close>.\<close>

record progress = stats +
  total_count :: int
  percentage :: int

record row_error =
  row :: int
  err_code :: string
  error :: string

text \<open>
  Times are milliseconds since the epoch. \<^verbatim>\<open>avgProcessingSpeed\<close> is a rounded
  floating-point quotient that nothing below reads; it is left out of the record.
\<close>

record summary =
  startTime :: "int option"
  endTime :: "int option"
  duration :: "int option"

record job =
  jobId :: string
  userId :: string
  brandId :: string
  filename :: string
  fileType :: string
  status :: job_status
  progress :: progress
  errors :: "row_error list"
  summary :: summary
  maxErrors :: nat

text \<open>The schema defaults with which the upload controller creates a job.\<close>

definition new_progress :: progress where
  "new_progress = \<lparr>processed = 0, successful = 0, failed = 0, duplicates = 0,
     total_count = 0, percentage = 0\<rparr>"

definition new_job :: "string \<Rightarrow> string \<Rightarrow> string \<Rightarrow> string \<Rightarrow> string \<Rightarrow> job" where
  "new_job jid uid bid fname ftype =
     \<lparr>jobId = jid, userId = uid, brandId = bid, filename = fname, fileType = ftype,
      status = Pending, progress = new_progress, errors = [],
      summary = \<lparr>startTime = None, endTime = None, duration = None\<rparr>, maxErrors = 100\<rparr>"

subsection \<open>The database, the socket and Mongoose documents\<close>

record authcode =
  doc_code :: string
  brand :: string
  product :: "string option"

record progress_event =
  ev_room :: string
  ev_jobId :: string
  ev_status :: job_status
  ev_progress :: progress
  ev_errors :: "row_error list"

text \<open>
  \<open>jobs\<close>, \<open>authCodes\<close> and \<open>brands\<close> are the three collections (a brand is
  reduced to its \<^verbatim>\<open>totalCodes\<close>); \<open>emitted\<close> lists the events pushed through the
  socket; \<open>saved\<close> lists the stored job record after every write of a job document.
\<close>

record world =
  jobs :: "string \<rightharpoonup> job"
  authCodes :: "authcode list"
  brands :: "string \<rightharpoonup> int"
  emitted :: "progress_event list"
  saved :: "job list"

text \<open>
  A Mongoose document is the in-memory copy of a record together with the paths
  assigned since it was loaded or last saved; \<^verbatim>\<open>save()\<close> writes exactly those paths
  into the stored record and leaves the others as they are in the database. The job
  is assumed to stay in its collection while a document of it is in use: saving a
  document whose record is gone changes nothing here.
\<close>

datatype path = path_status | path_progress | path_errors | path_startTime
  | path_endTime | path_duration

record jobdoc =
  content :: job
  modified :: "path set"

fun write_path :: "path \<Rightarrow> job \<Rightarrow> job \<Rightarrow> job" where
  "write_path path_status src dst = dst\<lparr>status := status src\<rparr>"
| "write_path path_progress src dst = dst\<lparr>progress := progress src\<rparr>"
| "write_path path_errors src dst = dst\<lparr>errors := errors src\<rparr>"
| "write_path path_startTime src dst =
     dst\<lparr>summary := (summary dst)\<lparr>startTime := startTime (summary src)\<rparr>\<rparr>"
| "write_path path_endTime src dst =
     dst\<lparr>summary := (summary dst)\<lparr>endTime := endTime (summary src)\<rparr>\<rparr>"
| "write_path path_duration src dst =
     dst\<lparr>summary := (summary dst)\<lparr>duration := duration (summary src)\<rparr>\<rparr>"

definition write_modified :: "path set \<Rightarrow> job \<Rightarrow> job \<Rightarrow> job" where
  "write_modified m src dst =
     fold (\<lambda>p j. if p \<in> m then write_path p src j else j)
       [path_status, path_progress, path_errors, path_startTime, path_endTime,
        path_duration] dst"

definition save :: "jobdoc \<Rightarrow> world \<Rightarrow> world \<times> jobdoc" where
  "save d w =
     (if modified d = {} then (w, d)
      else case jobs w (jobId (content d)) of
             None \<Rightarrow> (w, d\<lparr>modified := {}\<rparr>)
           | Some stored \<Rightarrow>
               let stored' = write_modified (modified d) (content d) stored
               in (w\<lparr>jobs := (jobs w)(jobId (content d) \<mapsto> stored'),
                     saved := saved w @ [stored']\<rparr>,
                   d\<lparr>modified := {}\<rparr>))"

text \<open>\<^verbatim>\<open>BulkUploadJob.findOne({ jobId })\<close>: a fresh document of the stored record.\<close>

definition findOne :: "world \<Rightarrow> string \<Rightarrow> jobdoc option" where
  "findOne w jid = map_option (\<lambda>j. \<lparr>content = j, modified = {}\<rparr>) (jobs w jid)"

text \<open>Assignments to paths of the document.\<close>

definition set_status :: "job_status \<Rightarrow> jobdoc \<Rightarrow> jobdoc" where
  "set_status s d = d\<lparr>content := (content d)\<lparr>status := s\<rparr>,
     modified := insert path_status (modified d)\<rparr>"

definition set_startTime :: "int \<Rightarrow> jobdoc \<Rightarrow> jobdoc" where
  "set_startTime t d =
     d\<lparr>content := (content d)\<lparr>summary := (summary (content d))\<lparr>startTime := Some t\<rparr>\<rparr>,
       modified := insert path_startTime (modified d)\<rparr>"

definition set_endTime :: "int \<Rightarrow> jobdoc \<Rightarrow> jobdoc" where
  "set_endTime t d =
     d\<lparr>content := (content d)\<lparr>summary := (summary (content d))\<lparr>endTime := Some t\<rparr>\<rparr>,
       modified := insert path_endTime (modified d)\<rparr>"

definition set_duration :: "int \<Rightarrow> jobdoc \<Rightarrow> jobdoc" where
  "set_duration n d =
     d\<lparr>content := (content d)\<lparr>summary := (summary (content d))\<lparr>duration := Some n\<rparr>\<rparr>,
       modified := insert path_duration (modified d)\<rparr>"

text \<open>
  The block shared by the failure handler and the cancel controller:
  \<^verbatim>\<open>summary.endTime = new Date(); if (summary.startTime) summary.duration = endTime - startTime\<close>.
\<close>

definition stamp_end :: "int \<Rightarrow> jobdoc \<Rightarrow> jobdoc" where
  "stamp_end now d =
     (let d1 = set_endTime now d
      in case startTime (summary (content d1)) of
           None \<Rightarrow> d1
         | Some t0 \<Rightarrow> set_duration (now - t0) d1)"

subsection \<open>Methods of the job model\<close>

text \<open>
  The argument of \<^verbatim>\<open>updateProgress\<close> is an object with some of the keys of
  \<^verbatim>\<open>progress\<close>; \<^verbatim>\<open>Object.assign\<close> overwrites the keys that are present.
\<close>

record progress_update =
  upd_total :: "int option"
  upd_processed :: "int option"
  upd_successful :: "int option"
  upd_failed :: "int option"
  upd_duplicates :: "int option"

definition assign :: "progress \<Rightarrow> progress_update \<Rightarrow> progress" where
  "assign p u =
     p\<lparr>total_count := (case upd_total u of None \<Rightarrow> total_count p | Some v \<Rightarrow> v),
       processed := (case upd_processed u of None \<Rightarrow> processed p | Some v \<Rightarrow> v),
       successful := (case upd_successful u of None \<Rightarrow> successful p | Some v \<Rightarrow> v),
       failed := (case upd_failed u of None \<Rightarrow> failed p | Some v \<Rightarrow> v),
       duplicates := (case upd_duplicates u of None \<Rightarrow> duplicates p | Some v \<Rightarrow> v)\<rparr>"

text \<open>
  \<^verbatim>\<open>Math.round\<close> rounds to the nearest integer, a half upwards. The quotient is taken
  over the rationals, not over doubles.
\<close>

definition math_round :: "rat \<Rightarrow> int" where
  "math_round x = \<lfloor>x + 1 / 2\<rfloor>"

definition percent :: "int \<Rightarrow> int \<Rightarrow> int" where
  "percent p t = math_round (of_int p / of_int t * 100)"

definition recompute :: "progress \<Rightarrow> progress" where
  "recompute p =
     (if total_count p > 0 then p\<lparr>percentage := percent (processed p) (total_count p)\<rparr>
      else p)"

definition updateProgress :: "jobdoc \<Rightarrow> progress_update \<Rightarrow> world \<Rightarrow> world \<times> jobdoc" where
  "updateProgress d u w =
     save (d\<lparr>content := (content d)\<lparr>progress := recompute (assign (progress (content d)) u)\<rparr>,
             modified := insert path_progress (modified d)\<rparr>) w"

definition addError :: "jobdoc \<Rightarrow> row_error \<Rightarrow> world \<Rightarrow> world \<times> jobdoc" where
  "addError d e w =
     (if length (errors (content d)) < maxErrors (content d)
      then save (d\<lparr>content := (content d)\<lparr>errors := errors (content d) @ [e]\<rparr>,
                   modified := insert path_errors (modified d)\<rparr>) w
      else (w, d))"

text \<open>
  \<^verbatim>\<open>emitProgress(io, userId, jobId, job)\<close>; \<open>io\<close> tells whether a socket server was
  passed.
\<close>

definition emitProgress :: "bool \<Rightarrow> string \<Rightarrow> string \<Rightarrow> jobdoc \<Rightarrow> world \<Rightarrow> world" where
  "emitProgress io uid jid d w =
     (if io
      then w\<lparr>emitted := emitted w @
             [\<lparr>ev_room = ''user-'' @ uid, ev_jobId = jid, ev_status = status (content d),
               ev_progress = progress (content d),
               ev_errors = take 10 (errors (content d))\<rparr>]\<rparr>
      else w)"

subsection \<open>The code collection\<close>

text \<open>
  The schema of a code declares \<^verbatim>\<open>code\<close> unique. \<^verbatim>\<open>insertMany(docs, {ordered: false})\<close>
  tries every document: one whose code is already stored, or was stored by an earlier
  document of the same call, is rejected with write error 11000; the others are
  stored. What else can happen to an entry is left to the environment, a function
  from codes to faults: \<open>Skipped\<close> is an entry that is left out of the returned list
  without an error, \<open>WriteError c m\<close> one that the server rejects with code \<open>c\<close> and
  message \<open>m\<close>. When some entry was rejected the call throws a bulk write error that
  carries the code and message of the first write error and the list of all of them.
\<close>

datatype entry_fault = NoFault | Skipped | WriteError nat string

type_synonym faults = "string \<Rightarrow> entry_fault"

definition healthy :: faults where
  "healthy = (\<lambda>c. NoFault)"

definition duplicate_key_message :: string where
  "duplicate_key_message = ''E11000 duplicate key error''"

fun insert_unordered ::
  "faults \<Rightarrow> authcode list \<Rightarrow> authcode list \<Rightarrow> authcode list \<times> nat \<times> (nat \<times> string) list" where
  "insert_unordered f store [] = (store, 0, [])"
| "insert_unordered f store (x # xs) =
     (case f (doc_code x) of
        Skipped \<Rightarrow> insert_unordered f store xs
      | WriteError c m \<Rightarrow>
          (case insert_unordered f store xs of (s, n, es) \<Rightarrow> (s, n, (c, m) # es))
      | NoFault \<Rightarrow>
          if doc_code x \<in> doc_code ` set store
          then (case insert_unordered f store xs of
                  (s, n, es) \<Rightarrow> (s, n, (11000, duplicate_key_message) # es))
          else (case insert_unordered f (store @ [x]) xs of
                  (s, n, es) \<Rightarrow> (s, Suc n, es)))"

text \<open>
  The outcome of \<^verbatim>\<open>insertMany\<close>: \<open>Inserted n\<close> is a returned list of \<open>n\<close> documents,
  \<open>BulkWriteError c k m\<close> a thrown error with \<^verbatim>\<open>error.code\<close> \<open>c\<close>,
  \<open>k\<close> entries in \<^verbatim>\<open>error.writeErrors\<close> and message \<open>m\<close>.
\<close>

datatype insert_outcome = Inserted nat | BulkWriteError nat nat string

definition insertMany :: "faults \<Rightarrow> authcode list \<Rightarrow> authcode list \<Rightarrow> authcode list \<times> insert_outcome" where
  "insertMany f store xs =
     (case insert_unordered f store xs of
        (s, n, []) \<Rightarrow> (s, Inserted n)
      | (s, n, (c, m) # es) \<Rightarrow> (s, BulkWriteError c (Suc (length es)) m))"

subsection \<open>The service\<close>

record service =
  BATCH_SIZE :: nat
  MAX_ERRORS :: nat

text \<open>The constructor.\<close>

definition bulkUploadService :: service where
  "bulkUploadService = \<lparr>BATCH_SIZE = 1000, MAX_ERRORS = 100\<rparr>"

record code_item =
  code :: string
  rowNumber :: int

record result = stats +
  result_errors :: "row_error list"

text \<open>
  The loop of \<^verbatim>\<open>processBatch\<close> over the batch, with its three variables
  \<^verbatim>\<open>newCodes\<close>, \<^verbatim>\<open>duplicatesCount\<close> and \<^verbatim>\<open>errors\<close>. \<^verbatim>\<open>product\<close> is set when
  \<^verbatim>\<open>productId\<close> is truthy.
\<close>

fun filter_duplicates ::
  "string set \<Rightarrow> string \<Rightarrow> string option \<Rightarrow> code_item list \<Rightarrow>
   authcode list \<times> int \<times> row_error list \<Rightarrow> authcode list \<times> int \<times> row_error list" where
  "filter_duplicates existingSet bid pid [] acc = acc"
| "filter_duplicates existingSet bid pid (item # rest) (newCodes, duplicatesCount, errs) =
     (if code item \<in> existingSet
      then filter_duplicates existingSet bid pid rest
             (newCodes, duplicatesCount + 1,
              errs @ [\<lparr>row = rowNumber item, err_code = code item, error = ''Duplicate code''\<rparr>])
      else filter_duplicates existingSet bid pid rest
             (newCodes @ [\<lparr>doc_code = code item, brand = bid,
                            product = (if truthy pid then pid else None)\<rparr>],
              duplicatesCount, errs))"

text \<open>
  The end of \<^verbatim>\<open>processBatch\<close>, from \<^verbatim>\<open>// Update job progress\<close> on: the statistics
  of the batch are added to the counters of the document, which is saved, and the
  progress is emitted.
\<close>

definition report_batch ::
  "code_item list \<Rightarrow> int \<Rightarrow> int \<Rightarrow> jobdoc \<Rightarrow> bool \<Rightarrow> string \<Rightarrow> world \<Rightarrow> stats \<times> world \<times> jobdoc" where
  "report_batch codes insertedCount duplicatesCount d io uid w =
     (let st = \<lparr>processed = int (length codes), successful = insertedCount,
                failed = int (length codes) - insertedCount - duplicatesCount,
                duplicates = duplicatesCount\<rparr>;
          p = progress (content d)
      in case updateProgress d
                \<lparr>upd_total = None,
                 upd_processed = Some (processed p + processed st),
                 upd_successful = Some (successful p + successful st),
                 upd_failed = Some (failed p + failed st),
                 upd_duplicates = Some (duplicates p + duplicates st)\<rparr> w of
           (w1, d1) \<Rightarrow> (st, emitProgress io uid (jobId (content d1)) d1 w1, d1))"

text \<open>
  \<^verbatim>\<open>processBatch(codes, brandId, productId, job, errors, io, userId)\<close>. The array
  \<^verbatim>\<open>errors\<close> is the caller's and is extended in place, so it is returned, with the
  database and the document, also when the call throws.
\<close>

definition processBatch ::
  "faults \<Rightarrow> code_item list \<Rightarrow> string \<Rightarrow> string option \<Rightarrow> jobdoc \<Rightarrow> row_error list \<Rightarrow> bool \<Rightarrow>
   string \<Rightarrow> world \<Rightarrow> (js_error + stats) \<times> row_error list \<times> world \<times> jobdoc" where
  "processBatch f codes bid pid d errs io uid w =
     (let codeStrings = map code codes;
          existingCodes = filter (\<lambda>a. doc_code a \<in> set codeStrings) (authCodes w);
          existingSet = set (map doc_code existingCodes)
      in case filter_duplicates existingSet bid pid codes ([], 0, errs) of
           (newCodes, duplicatesCount, errs1) \<Rightarrow>
             if newCodes = []
             then (case report_batch codes 0 duplicatesCount d io uid w of
                     (st, w', d') \<Rightarrow> (Inr st, errs1, w', d'))
             else (case insertMany f (authCodes w) newCodes of
                     (store, Inserted n) \<Rightarrow>
                       (case report_batch codes (int n) duplicatesCount d io uid
                               (w\<lparr>authCodes := store\<rparr>) of
                          (st, w', d') \<Rightarrow> (Inr st, errs1, w', d'))
                   | (store, BulkWriteError c k m) \<Rightarrow>
                       if c = 11000
                       then (case report_batch codes (int (length newCodes) - int k)
                                    (duplicatesCount + int k) d io uid
                                    (w\<lparr>authCodes := store\<rparr>) of
                               (st, w', d') \<Rightarrow> (Inr st, errs1, w', d'))
                       else (Inl (Error (''Batch processing error: '' @ m)), errs1,
                             w\<lparr>authCodes := store\<rparr>, d)))"

subsection \<open>The two readers\<close>

text \<open>
  The arguments that \<^verbatim>\<open>processBulkUpload\<close> hands down unchanged, and the local
  variables of \<^verbatim>\<open>processCSV\<close> and \<^verbatim>\<open>processExcel\<close> (\<open>row_errors\<close> is the array
  \<^verbatim>\<open>errors\<close>, \<open>row_counter\<close> the variable \<^verbatim>\<open>rowNumber\<close> of \<^verbatim>\<open>processCSV\<close>).
\<close>

record call =
  arg_brandId :: string
  arg_productId :: "string option"
  arg_userId :: string
  arg_io :: bool

record locals =
  codes :: "code_item list"
  row_errors :: "row_error list"
  row_counter :: int
  processedCount :: int
  successfulCount :: int
  failedCount :: int
  duplicatesCount :: int

definition init_locals :: locals where
  "init_locals = \<lparr>codes = [], row_errors = [], row_counter = 0, processedCount = 0,
     successfulCount = 0, failedCount = 0, duplicatesCount = 0\<rparr>"

definition add_stats :: "stats \<Rightarrow> locals \<Rightarrow> locals" where
  "add_stats st l =
     l\<lparr>processedCount := processedCount l + processed st,
       successfulCount := successfulCount l + successful st,
       failedCount := failedCount l + failed st,
       duplicatesCount := duplicatesCount l + duplicates st\<rparr>"

definition row_failed :: "int \<Rightarrow> string \<Rightarrow> locals \<Rightarrow> locals" where
  "row_failed n m l =
     l\<lparr>row_errors := row_errors l @ [\<lparr>row = n, err_code = [], error = m\<rparr>],
       failedCount := failedCount l + 1\<rparr>"

definition push_code :: "string \<Rightarrow> int \<Rightarrow> locals \<Rightarrow> locals" where
  "push_code c n l = l\<lparr>codes := codes l @ [\<lparr>code = c, rowNumber = n\<rparr>]\<rparr>"

text \<open>
  The branch on \<^verbatim>\<open>!code\<close> of both readers: a row without a code is recorded as
  failed, a code is appended to the batch.
\<close>

definition keep_or_drop :: "string option \<Rightarrow> int \<Rightarrow> locals \<Rightarrow> locals" where
  "keep_or_drop extracted n l =
     (case extracted of
        None \<Rightarrow> row_failed n empty_message l
      | Some cd \<Rightarrow> push_code cd n l)"

definition result_of :: "service \<Rightarrow> locals \<Rightarrow> result" where
  "result_of svc l =
     \<lparr>processed = processedCount l, successful = successfulCount l, failed = failedCount l,
      duplicates = duplicatesCount l, result_errors = take (MAX_ERRORS svc) (row_errors l)\<rparr>"

text \<open>
  The \<^verbatim>\<open>'data'\<close> handler of \<^verbatim>\<open>processCSV\<close>. The parser is paused while a batch is
  written, so the handler and the batch it starts run before the next row arrives; a
  batch that throws rejects the promise of \<^verbatim>\<open>processCSV\<close> and the parser stays paused.
\<close>

definition csv_on_data ::
  "service \<Rightarrow> faults \<Rightarrow> call \<Rightarrow> row \<Rightarrow> locals \<Rightarrow> world \<Rightarrow> jobdoc \<Rightarrow>
   (js_error + locals) \<times> world \<times> jobdoc" where
  "csv_on_data svc f c r l w d =
     (let l1 = l\<lparr>row_counter := row_counter l + 1\<rparr>
      in case extractCode r of
           Inl (Error m) \<Rightarrow> (Inr (row_failed (row_counter l1) m l1), w, d)
         | Inr extracted \<Rightarrow>
             let l2 = keep_or_drop extracted (row_counter l1) l1
             in if length (codes l2) \<ge> BATCH_SIZE svc
                then (case processBatch f (codes l2) (arg_brandId c) (arg_productId c) d
                             (row_errors l2) (arg_io c) (arg_userId c) w of
                        (Inl e, errs, w', d') \<Rightarrow> (Inl e, w', d')
                      | (Inr st, errs, w', d') \<Rightarrow>
                          (Inr ((add_stats st (l2\<lparr>row_errors := errs\<rparr>))\<lparr>codes := []\<rparr>), w', d'))
                else (Inr l2, w, d))"

text \<open>The \<^verbatim>\<open>'end'\<close> handler.\<close>

definition csv_on_end ::
  "service \<Rightarrow> faults \<Rightarrow> call \<Rightarrow> locals \<Rightarrow> world \<Rightarrow> jobdoc \<Rightarrow>
   (js_error + result) \<times> world \<times> jobdoc" where
  "csv_on_end svc f c l w d =
     (if codes l \<noteq> []
      then (case processBatch f (codes l) (arg_brandId c) (arg_productId c) d
                   (row_errors l) (arg_io c) (arg_userId c) w of
              (Inl e, errs, w', d') \<Rightarrow> (Inl e, w', d')
            | (Inr st, errs, w', d') \<Rightarrow>
                (Inr (result_of svc (add_stats st (l\<lparr>row_errors := errs\<rparr>))), w', d'))
      else (Inr (result_of svc l), w, d))"

text \<open>
  What the parser emits for a file: rows, and possibly an \<^verbatim>\<open>'error'\<close>, which rejects
  the promise; \<^verbatim>\<open>'end'\<close> follows the last row.
\<close>

datatype parse_event = Data row | StreamError string

fun csv_events ::
  "service \<Rightarrow> faults \<Rightarrow> call \<Rightarrow> parse_event list \<Rightarrow> locals \<Rightarrow> world \<Rightarrow> jobdoc \<Rightarrow>
   (js_error + result) \<times> world \<times> jobdoc" where
  "csv_events svc f c [] l w d = csv_on_end svc f c l w d"
| "csv_events svc f c (StreamError m # evs) l w d = (Inl (Error m), w, d)"
| "csv_events svc f c (Data r # evs) l w d =
     (case csv_on_data svc f c r l w d of
        (Inl e, w', d') \<Rightarrow> (Inl e, w', d')
      | (Inr l', w', d') \<Rightarrow> csv_events svc f c evs l' w' d')"

definition processCSV ::
  "service \<Rightarrow> faults \<Rightarrow> call \<Rightarrow> parse_event list \<Rightarrow> world \<Rightarrow> jobdoc \<Rightarrow>
   (js_error + result) \<times> world \<times> jobdoc" where
  "processCSV svc f c evs w d = csv_events svc f c evs init_locals w d"

text \<open>
  One turn of the loop of \<^verbatim>\<open>processExcel\<close>, for row \<open>i\<close> of \<open>n\<close>. The call of
  \<^verbatim>\<open>extractCode\<close>, the test for a full batch or the last row and the call of
  \<^verbatim>\<open>processBatch\<close> are inside one \<^verbatim>\<open>try\<close>, whose handler records the message under
  the number of the row.
\<close>

definition excel_row ::
  "service \<Rightarrow> faults \<Rightarrow> call \<Rightarrow> nat \<Rightarrow> nat \<Rightarrow> row \<Rightarrow> locals \<Rightarrow> world \<Rightarrow> jobdoc \<Rightarrow>
   locals \<times> world \<times> jobdoc" where
  "excel_row svc f c n i r l w d =
     (case extractCode r of
        Inl (Error m) \<Rightarrow> (row_failed (int i + 2) m l, w, d)
      | Inr extracted \<Rightarrow>
          let l2 = keep_or_drop extracted (int i + 2) l
          in if length (codes l2) \<ge> BATCH_SIZE svc \<or> int i = int n - 1
             then (case processBatch f (codes l2) (arg_brandId c) (arg_productId c) d
                          (row_errors l2) (arg_io c) (arg_userId c) w of
                     (Inl (Error m), errs, w', d') \<Rightarrow>
                       (row_failed (int i + 2) m (l2\<lparr>row_errors := errs\<rparr>), w', d')
                   | (Inr st, errs, w', d') \<Rightarrow>
                       ((add_stats st (l2\<lparr>row_errors := errs\<rparr>))\<lparr>codes := []\<rparr>, w', d'))
             else (l2, w, d))"

fun excel_rows ::
  "service \<Rightarrow> faults \<Rightarrow> call \<Rightarrow> nat \<Rightarrow> nat \<Rightarrow> row list \<Rightarrow> locals \<Rightarrow> world \<Rightarrow> jobdoc \<Rightarrow>
   locals \<times> world \<times> jobdoc" where
  "excel_rows svc f c n i [] l w d = (l, w, d)"
| "excel_rows svc f c n i (r # rs) l w d =
     (case excel_row svc f c n i r l w d of
        (l', w', d') \<Rightarrow> excel_rows svc f c n (Suc i) rs l' w' d')"

text \<open>
  \<^verbatim>\<open>processExcel\<close>; the argument is what reading the first sheet gives: an error of
  the reader or the rows.
\<close>

definition processExcel ::
  "service \<Rightarrow> faults \<Rightarrow> call \<Rightarrow> js_error + row list \<Rightarrow> world \<Rightarrow> jobdoc \<Rightarrow>
   (js_error + result) \<times> world \<times> jobdoc" where
  "processExcel svc f c sheet w d =
     (case sheet of
        Inl (Error m) \<Rightarrow> (Inl (Error (''Excel processing error: '' @ m)), w, d)
      | Inr rows \<Rightarrow>
          (case updateProgress d
                  \<lparr>upd_total = Some (int (length rows)), upd_processed = None,
                   upd_successful = None, upd_failed = None, upd_duplicates = None\<rparr> w of
             (w1, d1) \<Rightarrow>
               (case excel_rows svc f c (length rows) 0 rows init_locals
                       (emitProgress (arg_io c) (arg_userId c) (jobId (content d1)) d1 w1) d1 of
                  (l, w2, d2) \<Rightarrow> (Inr (result_of svc l), w2, d2))))"

subsection \<open>The orchestrator\<close>

text \<open>
  The uploaded file, as each reader sees it. Deleting the file is outside the model.
\<close>

record upload =
  as_csv :: "parse_event list"
  as_xlsx :: "js_error + row list"

text \<open>The \<^verbatim>\<open>catch\<close> block of \<^verbatim>\<open>processBulkUpload\<close> when the job was found.\<close>

definition fail_job :: "call \<Rightarrow> string \<Rightarrow> int \<Rightarrow> js_error \<Rightarrow> world \<Rightarrow> jobdoc \<Rightarrow> world \<times> jobdoc" where
  "fail_job c jid now e w d =
     (case e of Error m \<Rightarrow>
        (case addError (stamp_end now (set_status Failed d))
                \<lparr>row = 0, err_code = ''SYSTEM_ERROR'', error = m\<rparr> w of
           (w1, d1) \<Rightarrow>
             (case save d1 w1 of
                (w2, d2) \<Rightarrow> (emitProgress (arg_io c) (arg_userId c) jid d2 w2, d2))))"

text \<open>The steps after the reader has returned its result.\<close>

definition complete_job :: "call \<Rightarrow> string \<Rightarrow> int \<Rightarrow> result \<Rightarrow> world \<Rightarrow> jobdoc \<Rightarrow> world \<times> jobdoc" where
  "complete_job c jid now res w d =
     (let w1 = w\<lparr>brands := (case brands w (arg_brandId c) of
                               None \<Rightarrow> brands w
                             | Some n \<Rightarrow> (brands w)(arg_brandId c \<mapsto> n + successful res))\<rparr>;
          d1 = set_endTime now (set_status Completed d);
          d2 = (case startTime (summary (content d1)) of
                  None \<Rightarrow> d1
                | Some t0 \<Rightarrow> set_duration (now - t0) d1)
      in case save d2 w1 of
           (w2, d3) \<Rightarrow> (emitProgress (arg_io c) (arg_userId c) jid d3 w2, d3))"

text \<open>The body of the \<^verbatim>\<open>try\<close> block from the check of the brand to the reader.\<close>

definition run_reader ::
  "service \<Rightarrow> faults \<Rightarrow> call \<Rightarrow> upload \<Rightarrow> string \<Rightarrow> world \<Rightarrow> jobdoc \<Rightarrow>
   (js_error + result) \<times> world \<times> jobdoc" where
  "run_reader svc f c file ftype w d =
     (if brands w (arg_brandId c) = None then (Inl (Error ''Brand not found''), w, d)
      else if ftype = ''csv'' then processCSV svc f c (as_csv file) w d
      else if ftype = ''xlsx'' then processExcel svc f c (as_xlsx file) w d
      else (Inl (Error ''Unsupported file type''), w, d))"

text \<open>
  \<^verbatim>\<open>processBulkUpload({ jobId, filePath, fileType, brandId, productId, userId, io })\<close>;
  \<open>t0\<close> and \<open>t1\<close> are the clock readings at the start and at the end of the run.
\<close>

definition processBulkUpload ::
  "service \<Rightarrow> faults \<Rightarrow> string \<Rightarrow> upload \<Rightarrow> string \<Rightarrow> call \<Rightarrow> int \<Rightarrow> int \<Rightarrow> world \<Rightarrow>
   (js_error + result) \<times> world" where
  "processBulkUpload svc f jid file ftype c t0 t1 w =
     (case findOne w jid of
        None \<Rightarrow> (Inl (Error ''Job not found''), w)
      | Some d \<Rightarrow>
          (case save (set_startTime t0 (set_status Processing d)) w of
             (w1, d1) \<Rightarrow>
               (case run_reader svc f c file ftype
                       (emitProgress (arg_io c) (arg_userId c) jid d1 w1) d1 of
                  (Inr res, w2, d2) \<Rightarrow> (Inr res, fst (complete_job c jid t1 res w2 d2))
                | (Inl e, w2, d2) \<Rightarrow> (Inl e, fst (fail_job c jid t1 e w2 d2)))))"

subsection \<open>The controller\<close>

datatype 'a response = Response nat bool string "'a option"

definition status_name :: "job_status \<Rightarrow> string" where
  "status_name s = (case s of Pending \<Rightarrow> ''pending'' | Processing \<Rightarrow> ''processing''
     | Completed \<Rightarrow> ''completed'' | Failed \<Rightarrow> ''failed'' | Cancelled \<Rightarrow> ''cancelled'')"

text \<open>
  \<^verbatim>\<open>cancelBulkUpload\<close>, for the job id of the request, the id of the authenticated
  user and the clock reading.
\<close>

definition cancelBulkUpload :: "string \<Rightarrow> string \<Rightarrow> int \<Rightarrow> world \<Rightarrow> job response \<times> world" where
  "cancelBulkUpload jid uid now w =
     (case findOne w jid of
        None \<Rightarrow> (Response 404 False ''Job not found'' None, w)
      | Some d \<Rightarrow>
          if userId (content d) \<noteq> uid then (Response 403 False ''Access denied'' None, w)
          else if status (content d) \<notin> {Pending, Processing}
          then (Response 400 False
                  (''Cannot cancel '' @ status_name (status (content d)) @ '' job'') None, w)
          else (case save (stamp_end now (set_status Cancelled d)) w of
                  (w', d') \<Rightarrow>
                    (Response 200 True ''Job cancelled successfully'' (Some (content d')), w')))"


subsection \<open>A cancel request during a run\<close>



section \<open>Notions used in the statements\<close>

subsection \<open>Progress updates and job records\<close>

text \<open>
  What a batch of \<open>n\<close> codes with \<open>ins\<close> insertions and \<open>dups\<close> duplicates
  does to the counters: the update that \<open>report_batch\<close> passes to \<open>updateProgress\<close>.
\<close>

definition add_batch :: "int \<Rightarrow> int \<Rightarrow> int \<Rightarrow> progress \<Rightarrow> progress" where
  "add_batch n ins dups p =
     recompute (p\<lparr>processed := processed p + n, successful := successful p + ins,
                  failed := failed p + (n - ins - dups), duplicates := duplicates p + dups\<rparr>)"

text \<open>A property of the counters that no batch can break.\<close>

definition stable :: "(progress \<Rightarrow> bool) \<Rightarrow> bool" where
  "stable Q \<longleftrightarrow> (\<forall>p n ins dups. Q p \<longrightarrow> Q (add_batch n ins dups p))"

text \<open>The event that \<open>emitProgress\<close> pushes for a document with this content.\<close>

definition progress_event_of :: "string \<Rightarrow> string \<Rightarrow> job \<Rightarrow> progress_event" where
  "progress_event_of uid jid j =
     \<lparr>ev_room = ''user-'' @ uid, ev_jobId = jid, ev_status = status j,
      ev_progress = progress j, ev_errors = take 10 (errors j)\<rparr>"

text \<open>
  The stored record after the first save of a run, after its last save, and the
  error entry that the failure handler adds.
\<close>

definition started :: "int \<Rightarrow> job \<Rightarrow> job" where
  "started t0 j = j\<lparr>status := Processing, summary := (summary j)\<lparr>startTime := Some t0\<rparr>\<rparr>"

definition ended :: "job_status \<Rightarrow> int \<Rightarrow> job \<Rightarrow> job" where
  "ended s t1 j =
     j\<lparr>status := s,
       summary := (summary j)\<lparr>endTime := Some t1,
         duration := (case startTime (summary j) of None \<Rightarrow> duration (summary j)
                      | Some t0 \<Rightarrow> Some (t1 - t0))\<rparr>\<rparr>"

definition system_error :: "string \<Rightarrow> row_error" where
  "system_error m = \<lparr>row = 0, err_code = ''SYSTEM_ERROR'', error = m\<rparr>"

definition failed_record :: "string \<Rightarrow> int \<Rightarrow> job \<Rightarrow> job \<Rightarrow> job" where
  "failed_record m t1 dj r =
     (if length (errors dj) < maxErrors dj
      then r\<lparr>status := Failed, errors := errors dj @ [system_error m],
             summary := summary (ended Failed t1 r)\<rparr>
      else ended Failed t1 r)"

text \<open>
  What holds between two batches while a reader runs, relative to the database \<open>w0\<close>,
  the document \<open>d0\<close> and the stored record \<open>r0\<close> the reader started with: document
  and record differ from them in the counters only, nothing is pending in the
  document, and every record written and every event pushed since carries counters
  that satisfy \<open>Q\<close>.
\<close>

definition reader_inv ::
  "(progress \<Rightarrow> bool) \<Rightarrow> string \<Rightarrow> job \<Rightarrow> world \<Rightarrow> jobdoc \<Rightarrow> world \<Rightarrow> jobdoc \<Rightarrow> bool" where
  "reader_inv Q uid r0 w0 d0 w d \<longleftrightarrow>
     (\<exists>p. Q p \<and> content d = (content d0)\<lparr>progress := p\<rparr> \<and> modified d = {}
        \<and> jobs w = (jobs w0)(jobId (content d0) \<mapsto> r0\<lparr>progress := p\<rparr>))
     \<and> brands w = brands w0
     \<and> (\<forall>s \<in> set (saved w). s \<in> set (saved w0) \<or> (\<exists>p. Q p \<and> s = r0\<lparr>progress := p\<rparr>))
     \<and> (\<forall>ev \<in> set (emitted w). ev \<in> set (emitted w0) \<or>
           (\<exists>p. Q p \<and> ev = progress_event_of uid (jobId (content d0)) ((content d0)\<lparr>progress := p\<rparr>)))"


subsection \<open>The entries of a batch\<close>

text \<open>
  The document that \<open>filter_duplicates\<close> queues for an entry, the error it records
  for an entry that is stored already, and the two parts into which it splits a
  batch: the entries whose code is in the collection, and the documents to insert.
\<close>

definition doc_of :: "string \<Rightarrow> string option \<Rightarrow> code_item \<Rightarrow> authcode" where
  "doc_of bid pid item =
     \<lparr>doc_code = code item, brand = bid, product = (if truthy pid then pid else None)\<rparr>"

definition duplicate_error :: "code_item \<Rightarrow> row_error" where
  "duplicate_error item = \<lparr>row = rowNumber item, err_code = code item, error = ''Duplicate code''\<rparr>"

definition known :: "world \<Rightarrow> code_item list \<Rightarrow> code_item list" where
  "known w cs = filter (\<lambda>item. code item \<in> doc_code ` set (authCodes w)) cs"

definition new_docs :: "world \<Rightarrow> string \<Rightarrow> string option \<Rightarrow> code_item list \<Rightarrow> authcode list" where
  "new_docs w bid pid cs =
     map (doc_of bid pid) (filter (\<lambda>item. code item \<notin> doc_code ` set (authCodes w)) cs)"

subsection \<open>Codes of a file and of the collection\<close>

text \<open>
  The codes in the collection, the codes that the extraction returns for the rows of
  a stream and for one row, and two quantities that a flush of the CSV reader keeps:
  the successes counted so far plus the codes still to come that are not stored, and
  the number of codes seen so far.
\<close>

definition stored :: "world \<Rightarrow> string set" where
  "stored w = doc_code ` set (authCodes w)"

fun extracted :: "parse_event list \<Rightarrow> string list" where
  "extracted [] = []"
| "extracted (Data r # evs) =
     (case extractCode r of Inr (Some cd) \<Rightarrow> cd # extracted evs | _ \<Rightarrow> extracted evs)"
| "extracted (StreamError m # evs) = extracted evs"

definition row_codes :: "row \<Rightarrow> string list" where
  "row_codes r = (case extractCode r of Inr (Some cd) \<Rightarrow> [cd] | _ \<Rightarrow> [])"

definition potential :: "locals \<Rightarrow> world \<Rightarrow> string set \<Rightarrow> int" where
  "potential l w X = successfulCount l + int (card ((code ` set (codes l) \<union> X) - stored w))"

definition seen :: "locals \<Rightarrow> int" where
  "seen l = successfulCount l + duplicatesCount l + int (length (codes l))"

subsection \<open>Counters\<close>

text \<open>The identity of the data model between the counters.\<close>

definition counters_ok :: "progress \<Rightarrow> bool" where
  "counters_ok p \<longleftrightarrow> processed p = successful p + failed p + duplicates p"

text \<open>
  The number of rows of a stream that the extraction drops, and the distance between
  the counters of the document and the local counters of a reader.
\<close>

fun dropped :: "parse_event list \<Rightarrow> int" where
  "dropped [] = 0"
| "dropped (Data r # evs) =
     (case extractCode r of Inr (Some cd) \<Rightarrow> dropped evs | _ \<Rightarrow> 1 + dropped evs)"
| "dropped (StreamError m # evs) = dropped evs"

definition ahead :: "locals \<Rightarrow> progress \<Rightarrow> int \<Rightarrow> int \<Rightarrow> int \<Rightarrow> int \<Rightarrow> bool" where
  "ahead l p a b c e \<longleftrightarrow>
     processed p - processedCount l = a \<and> successful p - successfulCount l = b \<and>
     failed p - failedCount l = c \<and> duplicates p - duplicatesCount l = e"

subsection \<open>A database after a cancel request\<close>



subsection \<open>Example inputs\<close>

text \<open>
  A job as the upload controller creates it, in a database with its brand and no
  codes; the rows of the scenario in the specification; a spreadsheet of two rows,
  the first without a code; a file on which both readers fail; a job that has
  completed.
\<close>

definition example_job :: job where
  "example_job = new_job ''job-1'' ''user-1'' ''brand-1'' ''codes.csv'' ''csv''"

definition example_world :: world where
  "example_world = \<lparr>jobs = [''job-1'' \<mapsto> example_job], authCodes = [],
     brands = [''brand-1'' \<mapsto> 0], emitted = [], saved = []\<rparr>"

definition example_call :: call where
  "example_call = \<lparr>arg_brandId = ''brand-1'', arg_productId = None, arg_userId = ''user-1'',
     arg_io = True\<rparr>"

definition scenario_rows :: "row list" where
  "scenario_rows = [[(''code'', Some ''ABCDEFGH'')], [(''code'', Some ''ABCDEFGH'')],
     [(''code'', Some [])], [(''code'', Some ''XY'')]]"

definition scenario_upload :: upload where
  "scenario_upload = \<lparr>as_csv = map Data scenario_rows, as_xlsx = Inr scenario_rows\<rparr>"

definition half_rows :: "row list" where
  "half_rows = [[(''code'', Some [])], [(''code'', Some ''ABCDEFGH'')]]"

definition half_upload :: upload where
  "half_upload = \<lparr>as_csv = map Data half_rows, as_xlsx = Inr half_rows\<rparr>"


definition done_job :: job where
  "done_job = example_job\<lparr>status := Completed\<rparr>"

definition done_world :: world where
  "done_world = example_world\<lparr>jobs := [''job-1'' \<mapsto> done_job]\<rparr>"



definition twice :: "code_item list" where
  "twice = [\<lparr>code = ''ABCDEFGH'', rowNumber = 1\<rparr>, \<lparr>code = ''ABCDEFGH'', rowNumber = 2\<rparr>]"


text \<open>A file with the same code twice and a last row whose code is too short.\<close>

definition lost_rows :: "row list" where
  "lost_rows = [[(''code'', Some ''ABCDEFGH'')], [(''code'', Some ''ABCDEFGH'')],
     [(''code'', Some ''XY'')]]"

definition lost_upload :: upload where
  "lost_upload = \<lparr>as_csv = map Data lost_rows, as_xlsx = Inr lost_rows\<rparr>"



section \<open>Properties of the building blocks\<close>

subsection \<open>Saving a document\<close>

lemma write_progress_only:
  "write_modified {path_progress} src dst = dst\<lparr>progress := progress src\<rparr>"
  by (simp add: write_modified_def)

lemma save_clean: "modified d = {} \<Longrightarrow> save d w = (w, d)"
  by (simp add: save_def)

lemma save_dirty:
  "modified d \<noteq> {} \<Longrightarrow> jobs w (jobId (content d)) = Some r \<Longrightarrow>
   save d w = (w\<lparr>jobs := (jobs w)(jobId (content d) \<mapsto> write_modified (modified d) (content d) r),
                 saved := saved w @ [write_modified (modified d) (content d) r]\<rparr>,
               d\<lparr>modified := {}\<rparr>)"
  by (simp add: save_def Let_def)

lemma report_batch_eq:
  assumes "modified d = {}" and "jobs w (jobId (content d)) = Some r"
  shows "report_batch cs ins dups d io uid w =
    (\<lparr>processed = int (length cs), successful = ins,
      failed = int (length cs) - ins - dups, duplicates = dups\<rparr>,
     emitProgress io uid (jobId (content d))
       (d\<lparr>content := (content d)\<lparr>progress := add_batch (int (length cs)) ins dups (progress (content d))\<rparr>,
        modified := {}\<rparr>)
       (w\<lparr>jobs := (jobs w)(jobId (content d) \<mapsto>
                r\<lparr>progress := add_batch (int (length cs)) ins dups (progress (content d))\<rparr>),
          saved := saved w @
            [r\<lparr>progress := add_batch (int (length cs)) ins dups (progress (content d))\<rparr>]\<rparr>),
     d\<lparr>content := (content d)\<lparr>progress := add_batch (int (length cs)) ins dups (progress (content d))\<rparr>,
      modified := {}\<rparr>)"
  using assms
  by (simp add: report_batch_def updateProgress_def save_dirty write_progress_only
      add_batch_def assign_def Let_def)

subsection \<open>A batch\<close>

text \<open>
  A batch either throws, and then only the code collection may have changed, or it
  reports some numbers of insertions and duplicates.
\<close>

lemma processBatch_cases:
  "\<exists>store errs'.
     (\<exists>m. processBatch f cs bid pid d errs io uid w = (Inl (Error m), errs', w\<lparr>authCodes := store\<rparr>, d))
   \<or> (\<exists>ins dups. processBatch f cs bid pid d errs io uid w =
         (case report_batch cs ins dups d io uid (w\<lparr>authCodes := store\<rparr>) of
            (st, w', d') \<Rightarrow> (Inr st, errs', w', d')))"
proof -
  obtain nc dc e1 where fd: "filter_duplicates
      (set (map doc_code (filter (\<lambda>a. doc_code a \<in> set (map code cs)) (authCodes w)))) bid pid cs ([], 0, errs)
      = (nc, dc, e1)"
    by (metis prod_cases3)
  show ?thesis
  proof (cases "nc = []")
    case True
    have "processBatch f cs bid pid d errs io uid w =
         (case report_batch cs 0 dc d io uid (w\<lparr>authCodes := authCodes w\<rparr>) of
            (st, w', d') \<Rightarrow> (Inr st, e1, w', d'))"
      using fd True by (simp add: processBatch_def Let_def split: prod.splits)
    then show ?thesis by blast
  next
    case False
    obtain store oc where im: "insertMany f (authCodes w) nc = (store, oc)"
      by (metis surj_pair)
    show ?thesis
    proof (cases oc)
      case (Inserted n)
      have "processBatch f cs bid pid d errs io uid w =
         (case report_batch cs (int n) dc d io uid (w\<lparr>authCodes := store\<rparr>) of
            (st, w', d') \<Rightarrow> (Inr st, e1, w', d'))"
        using fd False im Inserted by (simp add: processBatch_def Let_def split: prod.splits)
      then show ?thesis by blast
    next
      case (BulkWriteError c k m)
      show ?thesis
      proof (cases "c = 11000")
        case True
        have "processBatch f cs bid pid d errs io uid w =
         (case report_batch cs (int (length nc) - int k) (dc + int k) d io uid (w\<lparr>authCodes := store\<rparr>) of
            (st, w', d') \<Rightarrow> (Inr st, e1, w', d'))"
          using fd False im BulkWriteError True by (simp add: processBatch_def Let_def split: prod.splits)
        then show ?thesis by blast
      next
        case c: False
        have "processBatch f cs bid pid d errs io uid w =
           (Inl (Error (''Batch processing error: '' @ m)), e1, w\<lparr>authCodes := store\<rparr>, d)"
          using fd False im BulkWriteError c by (simp add: processBatch_def Let_def split: prod.splits)
        then show ?thesis by blast
      qed
    qed
  qed
qed

lemma reader_inv_init:
  "Q (progress (content d0)) \<Longrightarrow> modified d0 = {} \<Longrightarrow> jobs w0 (jobId (content d0)) = Some r0 \<Longrightarrow>
   progress r0 = progress (content d0) \<Longrightarrow> reader_inv Q uid r0 w0 d0 w0 d0"
  unfolding reader_inv_def
  apply (intro conjI)
     apply (rule exI [of _ "progress (content d0)"])
     apply (auto simp: fun_upd_idem_iff)
  done

lemma processBatch_inv:
  assumes st: "stable Q" and inv: "reader_inv Q uid r0 w0 d0 w d"
    and pb: "processBatch f cs bid pid d errs io uid w = (out, errs', w', d')"
  shows "reader_inv Q uid r0 w0 d0 w' d'"
proof -
  from inv obtain p where p: "Q p" "content d = (content d0)\<lparr>progress := p\<rparr>" "modified d = {}"
      "jobs w = (jobs w0)(jobId (content d0) \<mapsto> r0\<lparr>progress := p\<rparr>)"
    unfolding reader_inv_def by blast
  from inv have rest: "brands w = brands w0"
    "\<forall>s \<in> set (saved w). s \<in> set (saved w0) \<or> (\<exists>p. Q p \<and> s = r0\<lparr>progress := p\<rparr>)"
    "\<forall>ev \<in> set (emitted w). ev \<in> set (emitted w0) \<or>
           (\<exists>p. Q p \<and> ev = progress_event_of uid (jobId (content d0)) ((content d0)\<lparr>progress := p\<rparr>))"
    unfolding reader_inv_def by blast+
  have jid: "jobId (content d) = jobId (content d0)" using p(2) by simp
  from processBatch_cases [of f cs bid pid d errs io uid w]
  obtain store e1 where "(\<exists>m. processBatch f cs bid pid d errs io uid w = (Inl (Error m), e1, w\<lparr>authCodes := store\<rparr>, d))
   \<or> (\<exists>ins dups. processBatch f cs bid pid d errs io uid w =
         (case report_batch cs ins dups d io uid (w\<lparr>authCodes := store\<rparr>) of
            (st, w', d') \<Rightarrow> (Inr st, e1, w', d')))" by blast
  then show ?thesis
  proof
    assume "\<exists>m. processBatch f cs bid pid d errs io uid w = (Inl (Error m), e1, w\<lparr>authCodes := store\<rparr>, d)"
    with pb have "w' = w\<lparr>authCodes := store\<rparr>" "d' = d" by auto
    with inv show ?thesis unfolding reader_inv_def by simp
  next
    assume "\<exists>ins dups. processBatch f cs bid pid d errs io uid w =
         (case report_batch cs ins dups d io uid (w\<lparr>authCodes := store\<rparr>) of
            (st, w', d') \<Rightarrow> (Inr st, e1, w', d'))"
    then obtain ins dups where eq: "processBatch f cs bid pid d errs io uid w =
         (case report_batch cs ins dups d io uid (w\<lparr>authCodes := store\<rparr>) of
            (st, w', d') \<Rightarrow> (Inr st, e1, w', d'))" by blast
    define p' where "p' = add_batch (int (length cs)) ins dups p"
    have Qp': "Q p'" using st p(1) unfolding stable_def p'_def by blast
    have js: "jobs (w\<lparr>authCodes := store\<rparr>) (jobId (content d)) = Some (r0\<lparr>progress := p\<rparr>)"
      using p(4) jid by simp
    have pd: "progress (content d) = p" using p(2) by simp
    note rb = report_batch_eq [OF p(3) js, of cs ins dups io uid, unfolded pd, folded p'_def]
    from pb eq rb have d': "d' = d\<lparr>content := (content d)\<lparr>progress := p'\<rparr>, modified := {}\<rparr>"
      and w': "w' = emitProgress io uid (jobId (content d))
       (d\<lparr>content := (content d)\<lparr>progress := p'\<rparr>, modified := {}\<rparr>)
       (w\<lparr>authCodes := store, jobs := (jobs w)(jobId (content d) \<mapsto> r0\<lparr>progress := p'\<rparr>),
          saved := saved w @ [r0\<lparr>progress := p'\<rparr>]\<rparr>)"
      by auto
    have c': "content d' = (content d0)\<lparr>progress := p'\<rparr>" using d' p(2) by simp
    have m': "modified d' = {}" using d' by simp
    have j': "jobs w' = (jobs w0)(jobId (content d0) \<mapsto> r0\<lparr>progress := p'\<rparr>)"
      using w' p(4) jid by (simp add: emitProgress_def)
    have b': "brands w' = brands w0" using w' rest(1) by (simp add: emitProgress_def)
    have s': "\<forall>s \<in> set (saved w'). s \<in> set (saved w0) \<or> (\<exists>p. Q p \<and> s = r0\<lparr>progress := p\<rparr>)"
      using w' rest(2) Qp' by (auto simp: emitProgress_def)
    have e': "\<forall>ev \<in> set (emitted w'). ev \<in> set (emitted w0) \<or>
           (\<exists>p. Q p \<and> ev = progress_event_of uid (jobId (content d0)) ((content d0)\<lparr>progress := p\<rparr>))"
    proof
      fix ev assume "ev \<in> set (emitted w')"
      then consider "ev \<in> set (emitted w)" |
        "ev = progress_event_of uid (jobId (content d0)) ((content d0)\<lparr>progress := p'\<rparr>)"
        using w' p(2) jid by (auto simp: emitProgress_def progress_event_of_def split: if_splits)
      then show "ev \<in> set (emitted w0) \<or>
           (\<exists>p. Q p \<and> ev = progress_event_of uid (jobId (content d0)) ((content d0)\<lparr>progress := p\<rparr>))"
        using rest(3) Qp' by cases blast+
    qed
    show ?thesis unfolding reader_inv_def using Qp' c' m' j' b' s' e' by blast
  qed
qed

subsection \<open>The readers\<close>

lemma csv_on_data_inv:
  assumes st: "stable Q" and inv: "reader_inv Q (arg_userId c) r0 w0 d0 w d"
    and run: "csv_on_data svc f c r l w d = (out, w', d')"
  shows "reader_inv Q (arg_userId c) r0 w0 d0 w' d'"
proof (cases "extractCode r")
  case (Inl e)
  then show ?thesis using run inv by (cases e) (simp add: csv_on_data_def Let_def)
next
  case (Inr x)
  define l2 where "l2 = keep_or_drop x (row_counter l + 1) (l\<lparr>row_counter := row_counter l + 1\<rparr>)"
  show ?thesis
  proof (cases "BATCH_SIZE svc \<le> length (codes l2)")
    case False
    then have "csv_on_data svc f c r l w d = (Inr l2, w, d)"
      using Inr by (simp add: csv_on_data_def Let_def l2_def)
    with run inv show ?thesis by simp
  next
    case True
    obtain o1 e1 w1 d1 where pb: "processBatch f (codes l2) (arg_brandId c) (arg_productId c) d
        (row_errors l2) (arg_io c) (arg_userId c) w = (o1, e1, w1, d1)"
      by (metis prod_cases4)
    have "w' = w1 \<and> d' = d1"
      using run Inr True pb
      by (cases o1) (simp_all add: csv_on_data_def Let_def l2_def)
    with processBatch_inv [OF st inv pb] show ?thesis by simp
  qed
qed

lemma csv_on_end_inv:
  assumes st: "stable Q" and inv: "reader_inv Q (arg_userId c) r0 w0 d0 w d"
    and run: "csv_on_end svc f c l w d = (out, w', d')"
  shows "reader_inv Q (arg_userId c) r0 w0 d0 w' d'"
proof (cases "codes l = []")
  case True
  with run inv show ?thesis by (simp add: csv_on_end_def)
next
  case False
  obtain o1 e1 w1 d1 where pb: "processBatch f (codes l) (arg_brandId c) (arg_productId c) d
        (row_errors l) (arg_io c) (arg_userId c) w = (o1, e1, w1, d1)"
    by (metis prod_cases4)
  have "w' = w1 \<and> d' = d1"
    using run False pb by (cases o1) (simp_all add: csv_on_end_def)
  with processBatch_inv [OF st inv pb] show ?thesis by simp
qed

lemma csv_events_inv:
  assumes st: "stable Q"
  shows "reader_inv Q (arg_userId c) r0 w0 d0 w d \<Longrightarrow>
         csv_events svc f c evs l w d = (out, w', d') \<Longrightarrow>
         reader_inv Q (arg_userId c) r0 w0 d0 w' d'"
proof (induction evs arbitrary: l w d)
  case Nil
  then show ?case using csv_on_end_inv [OF st] by simp
next
  case (Cons ev evs)
  show ?case
  proof (cases ev)
    case (StreamError m)
    with Cons.prems show ?thesis by simp
  next
    case (Data r)
    obtain o1 w1 d1 where od: "csv_on_data svc f c r l w d = (o1, w1, d1)"
      by (metis prod_cases3)
    note inv1 = csv_on_data_inv [OF st Cons.prems(1) od]
    show ?thesis
    proof (cases o1)
      case (Inl e)
      with Cons.prems(2) Data od inv1 show ?thesis by simp
    next
      case (Inr l1)
      with Cons.prems(2) Data od have "csv_events svc f c evs l1 w1 d1 = (out, w', d')" by simp
      from Cons.IH [OF inv1 this] show ?thesis .
    qed
  qed
qed

lemma excel_row_inv:
  assumes st: "stable Q" and inv: "reader_inv Q (arg_userId c) r0 w0 d0 w d"
    and run: "excel_row svc f c n i r l w d = (l', w', d')"
  shows "reader_inv Q (arg_userId c) r0 w0 d0 w' d'"
proof (cases "extractCode r")
  case (Inl e)
  then show ?thesis using run inv by (cases e) (simp add: excel_row_def Let_def)
next
  case (Inr x)
  define l2 where "l2 = keep_or_drop x (int i + 2) l"
  show ?thesis
  proof (cases "BATCH_SIZE svc \<le> length (codes l2) \<or> int i = int n - 1")
    case False
    then have "excel_row svc f c n i r l w d = (l2, w, d)"
      using Inr by (simp add: excel_row_def Let_def l2_def)
    with run inv show ?thesis by simp
  next
    case True
    obtain o1 e1 w1 d1 where pb: "processBatch f (codes l2) (arg_brandId c) (arg_productId c) d
        (row_errors l2) (arg_io c) (arg_userId c) w = (o1, e1, w1, d1)"
      by (metis prod_cases4)
    have "w' = w1 \<and> d' = d1"
    proof (cases o1)
      case (Inl e)
      then show ?thesis using run Inr True pb
        by (cases e) (simp add: excel_row_def Let_def l2_def)
    next
      case (Inr s)
      then show ?thesis using run \<open>extractCode r = Inr x\<close> True pb
        by (simp add: excel_row_def Let_def l2_def)
    qed
    with processBatch_inv [OF st inv pb] show ?thesis by simp
  qed
qed

lemma excel_rows_inv:
  assumes st: "stable Q"
  shows "reader_inv Q (arg_userId c) r0 w0 d0 w d \<Longrightarrow>
         excel_rows svc f c n i rs l w d = (l', w', d') \<Longrightarrow>
         reader_inv Q (arg_userId c) r0 w0 d0 w' d'"
proof (induction rs arbitrary: i l w d)
  case Nil
  then show ?case by simp
next
  case (Cons r rs)
  obtain l1 w1 d1 where er: "excel_row svc f c n i r l w d = (l1, w1, d1)"
    by (metis prod_cases3)
  note inv1 = excel_row_inv [OF st Cons.prems(1) er]
  from Cons.prems(2) er have "excel_rows svc f c n (Suc i) rs l1 w1 d1 = (l', w', d')" by simp
  from Cons.IH [OF inv1 this] show ?case .
qed

lemma set_total_inv:
  assumes inv: "reader_inv Q uid r0 w0 d0 w d"
    and Qn: "Q (recompute ((progress (content d))\<lparr>total_count := n\<rparr>))"
    and up: "updateProgress d \<lparr>upd_total = Some n, upd_processed = None, upd_successful = None,
               upd_failed = None, upd_duplicates = None\<rparr> w = (w1, d1)"
  shows "reader_inv Q uid r0 w0 d0 (emitProgress io uid (jobId (content d1)) d1 w1) d1"
proof -
  from inv obtain p where p: "Q p" "content d = (content d0)\<lparr>progress := p\<rparr>" "modified d = {}"
      "jobs w = (jobs w0)(jobId (content d0) \<mapsto> r0\<lparr>progress := p\<rparr>)"
    unfolding reader_inv_def by blast
  from inv have rest: "brands w = brands w0"
    "\<forall>s \<in> set (saved w). s \<in> set (saved w0) \<or> (\<exists>p. Q p \<and> s = r0\<lparr>progress := p\<rparr>)"
    "\<forall>ev \<in> set (emitted w). ev \<in> set (emitted w0) \<or>
           (\<exists>p. Q p \<and> ev = progress_event_of uid (jobId (content d0)) ((content d0)\<lparr>progress := p\<rparr>))"
    unfolding reader_inv_def by blast+
  define p' where "p' = recompute ((progress (content d))\<lparr>total_count := n\<rparr>)"
  have Qp': "Q p'" using Qn by (simp add: p'_def)
  have jid: "jobId (content d) = jobId (content d0)" using p(2) by simp
  have js: "jobs w (jobId (content d)) = Some (r0\<lparr>progress := p\<rparr>)" using p(4) jid by simp
  have "updateProgress d \<lparr>upd_total = Some n, upd_processed = None, upd_successful = None,
               upd_failed = None, upd_duplicates = None\<rparr> w =
        (w\<lparr>jobs := (jobs w)(jobId (content d) \<mapsto> r0\<lparr>progress := p'\<rparr>),
           saved := saved w @ [r0\<lparr>progress := p'\<rparr>]\<rparr>,
         d\<lparr>content := (content d)\<lparr>progress := p'\<rparr>, modified := {}\<rparr>)"
    using p(3) js
    by (simp add: updateProgress_def save_dirty write_progress_only assign_def p'_def)
  with up have w1: "w1 = w\<lparr>jobs := (jobs w)(jobId (content d) \<mapsto> r0\<lparr>progress := p'\<rparr>),
           saved := saved w @ [r0\<lparr>progress := p'\<rparr>]\<rparr>"
    and d1: "d1 = d\<lparr>content := (content d)\<lparr>progress := p'\<rparr>, modified := {}\<rparr>" by auto
  define w' where "w' = emitProgress io uid (jobId (content d1)) d1 w1"
  have c': "content d1 = (content d0)\<lparr>progress := p'\<rparr>" using d1 p(2) by simp
  have m': "modified d1 = {}" using d1 by simp
  have j': "jobs w' = (jobs w0)(jobId (content d0) \<mapsto> r0\<lparr>progress := p'\<rparr>)"
    using w1 p(4) jid by (simp add: w'_def emitProgress_def)
  have b': "brands w' = brands w0" using w1 rest(1) by (simp add: w'_def emitProgress_def)
  have s': "\<forall>s \<in> set (saved w'). s \<in> set (saved w0) \<or> (\<exists>p. Q p \<and> s = r0\<lparr>progress := p\<rparr>)"
    using w1 rest(2) Qp' by (auto simp: w'_def emitProgress_def)
  have e': "\<forall>ev \<in> set (emitted w'). ev \<in> set (emitted w0) \<or>
           (\<exists>p. Q p \<and> ev = progress_event_of uid (jobId (content d0)) ((content d0)\<lparr>progress := p\<rparr>))"
  proof
    fix ev assume "ev \<in> set (emitted w')"
    then consider "ev \<in> set (emitted w)" |
      "ev = progress_event_of uid (jobId (content d0)) ((content d0)\<lparr>progress := p'\<rparr>)"
      using w1 c' by (auto simp: w'_def emitProgress_def progress_event_of_def split: if_splits)
    then show "ev \<in> set (emitted w0) \<or>
           (\<exists>p. Q p \<and> ev = progress_event_of uid (jobId (content d0)) ((content d0)\<lparr>progress := p\<rparr>))"
      using rest(3) Qp' by cases blast+
  qed
  show ?thesis unfolding reader_inv_def w'_def [symmetric] using Qp' c' m' j' b' s' e' by blast
qed

lemma processExcel_inv:
  assumes st: "stable Q" and inv: "reader_inv Q (arg_userId c) r0 w0 d0 w d"
    and Qn: "\<And>rows. sheet = Inr rows \<Longrightarrow>
               Q (recompute ((progress (content d))\<lparr>total_count := int (length rows)\<rparr>))"
    and run: "processExcel svc f c sheet w d = (out, w', d')"
  shows "reader_inv Q (arg_userId c) r0 w0 d0 w' d'"
proof (cases sheet)
  case (Inl e)
  with run inv show ?thesis by (cases e) (simp add: processExcel_def)
next
  case (Inr rows)
  obtain w1 d1 where up: "updateProgress d \<lparr>upd_total = Some (int (length rows)),
       upd_processed = None, upd_successful = None, upd_failed = None, upd_duplicates = None\<rparr> w
       = (w1, d1)" by (metis surj_pair)
  note inv1 = set_total_inv [OF inv Qn [OF Inr] up, of "arg_io c"]
  obtain l2 w2 d2 where xr: "excel_rows svc f c (length rows) 0 rows init_locals
       (emitProgress (arg_io c) (arg_userId c) (jobId (content d1)) d1 w1) d1 = (l2, w2, d2)"
    by (metis prod_cases3)
  from run Inr up xr have "w' = w2 \<and> d' = d2" by (simp add: processExcel_def)
  with excel_rows_inv [OF st inv1 xr] show ?thesis by simp
qed

lemma run_reader_inv:
  assumes st: "stable Q" and inv: "reader_inv Q (arg_userId c) r0 w0 d0 w d"
    and Qn: "\<And>rows. ftype = ''xlsx'' \<Longrightarrow> as_xlsx file = Inr rows \<Longrightarrow>
               Q (recompute ((progress (content d))\<lparr>total_count := int (length rows)\<rparr>))"
    and run: "run_reader svc f c file ftype w d = (out, w', d')"
  shows "reader_inv Q (arg_userId c) r0 w0 d0 w' d'"
proof -
  consider (nobrand) "brands w (arg_brandId c) = None"
    | (csv) "brands w (arg_brandId c) \<noteq> None" "ftype = ''csv''"
    | (xlsx) "brands w (arg_brandId c) \<noteq> None" "ftype \<noteq> ''csv''" "ftype = ''xlsx''"
    | (other) "brands w (arg_brandId c) \<noteq> None" "ftype \<noteq> ''csv''" "ftype \<noteq> ''xlsx''"
    by blast
  then show ?thesis
  proof cases
    case nobrand
    with run inv show ?thesis by (simp add: run_reader_def)
  next
    case csv
    with run have "csv_events svc f c (as_csv file) init_locals w d = (out, w', d')"
      by (simp add: run_reader_def processCSV_def)
    from csv_events_inv [OF st inv this] show ?thesis .
  next
    case xlsx
    with run have "processExcel svc f c (as_xlsx file) w d = (out, w', d')"
      by (simp add: run_reader_def)
    from processExcel_inv [OF st inv Qn [OF xlsx(3)] this] show ?thesis by simp
  next
    case other
    with run inv show ?thesis by (simp add: run_reader_def)
  qed
qed

subsection \<open>A whole run\<close>

lemma start_eq:
  assumes "jobs w jid = Some j0" "jobId j0 = jid"
  shows "save (set_startTime t0 (set_status Processing \<lparr>content = j0, modified = {}\<rparr>)) w =
     (w\<lparr>jobs := (jobs w)(jid \<mapsto> started t0 j0), saved := saved w @ [started t0 j0]\<rparr>,
      \<lparr>content = started t0 j0, modified = {}\<rparr>)"
  using assms
  by (simp add: save_def set_startTime_def set_status_def write_modified_def started_def Let_def)

lemma complete_eq:
  assumes "modified d = {}" "jobs w (jobId (content d)) = Some r"
    "startTime (summary r) = startTime (summary (content d))"
  shows "complete_job c jid t1 res w d =
     (emitProgress (arg_io c) (arg_userId c) jid
        (d\<lparr>content := ended Completed t1 (content d), modified := {}\<rparr>)
        (w\<lparr>brands := (case brands w (arg_brandId c) of None \<Rightarrow> brands w
                        | Some n \<Rightarrow> (brands w)(arg_brandId c \<mapsto> n + successful res)),
           jobs := (jobs w)(jobId (content d) \<mapsto> ended Completed t1 r),
           saved := saved w @ [ended Completed t1 r]\<rparr>),
      d\<lparr>content := ended Completed t1 (content d), modified := {}\<rparr>)"
  using assms
  by (cases "startTime (summary (content d))")
     (simp_all add: complete_job_def save_def set_endTime_def set_duration_def set_status_def
        write_modified_def ended_def Let_def)

lemma fail_eq:
  assumes "modified d = {}" "jobs w (jobId (content d)) = Some r"
    "startTime (summary r) = startTime (summary (content d))"
  shows "jobs (fst (fail_job c jid t1 (Error m) w d)) =
           (jobs w)(jobId (content d) \<mapsto> failed_record m t1 (content d) r)"
    and "saved (fst (fail_job c jid t1 (Error m) w d)) =
           saved w @ [failed_record m t1 (content d) r]"
    and "emitted (fst (fail_job c jid t1 (Error m) w d)) =
           emitted w @ (if arg_io c
             then [progress_event_of (arg_userId c) jid (failed_record m t1 (content d) (content d))]
             else [])"
    and "brands (fst (fail_job c jid t1 (Error m) w d)) = brands w"
    and "authCodes (fst (fail_job c jid t1 (Error m) w d)) = authCodes w"
  using assms
  by (cases "startTime (summary (content d))";
      simp add: fail_job_def addError_def stamp_end_def save_def set_endTime_def
        set_duration_def set_status_def write_modified_def ended_def failed_record_def
        system_error_def Let_def emitProgress_def progress_event_of_def)+

text \<open>
  A run on a stored job ends with one more record for the job, completed or failed
  as the run returns or throws; every record written and every event pushed on the
  way satisfies what the counters satisfied at the start and no batch can break.
\<close>

lemma run_summary:
  assumes st: "stable Q" and Q0: "Q (progress j0)"
    and Qn: "\<And>rows. ftype = ''xlsx'' \<Longrightarrow> as_xlsx file = Inr rows \<Longrightarrow>
               Q (recompute ((progress j0)\<lparr>total_count := int (length rows)\<rparr>))"
    and job: "jobs w jid = Some j0" "jobId j0 = jid"
    and run: "processBulkUpload svc f jid file ftype c t0 t1 w = (out, w')"
  shows "\<exists>jf. jobs w' = (jobs w)(jid \<mapsto> jf) \<and> Q (progress jf) \<and> last (saved w') = jf
       \<and> (case out of
             Inr res \<Rightarrow> status jf = Completed \<and> errors jf = errors j0
           | Inl (Error m) \<Rightarrow> status jf = Failed \<and>
               errors jf = (if length (errors j0) < maxErrors j0
                            then errors j0 @ [system_error m] else errors j0))
       \<and> (\<exists>w1 w2 d2. authCodes w1 = authCodes w \<and> brands w1 = brands w \<and>
             run_reader svc f c file ftype w1 \<lparr>content = started t0 j0, modified = {}\<rparr>
               = (out, w2, d2) \<and> progress jf = progress (content d2) \<and>
             authCodes w' = authCodes w2)
       \<and> (\<forall>s \<in> set (saved w'). s \<in> set (saved w) \<or>
             (Q (progress s) \<and> (errors s = errors j0 \<or> s = jf)))
       \<and> (\<forall>ev \<in> set (emitted w'). ev \<in> set (emitted w) \<or>
             (Q (ev_progress ev) \<and>
              (ev_errors ev = take 10 (errors j0) \<or> ev_errors ev = take 10 (errors jf))))"
proof -
  define j1 where "j1 = started t0 j0"
  define d1 where "d1 = \<lparr>content = j1, modified = {}\<rparr>"
  define w1 where "w1 = w\<lparr>jobs := (jobs w)(jid \<mapsto> j1), saved := saved w @ [j1]\<rparr>"
  define we where "we = emitProgress (arg_io c) (arg_userId c) jid d1 w1"
  have j1_simps: "jobId j1 = jid" "progress j1 = progress j0" "errors j1 = errors j0"
    "maxErrors j1 = maxErrors j0" "startTime (summary j1) = Some t0"
    using job(2) by (simp_all add: j1_def started_def)
  have start: "save (set_startTime t0 (set_status Processing \<lparr>content = j0, modified = {}\<rparr>)) w
     = (w1, d1)"
    using start_eq [OF job] by (simp add: w1_def d1_def j1_def)
  obtain o2 w2 d2 where rr: "run_reader svc f c file ftype we d1 = (o2, w2, d2)"
    by (metis prod_cases3)
  have we_jobs: "jobs we = (jobs w)(jid \<mapsto> j1)" by (simp add: we_def w1_def emitProgress_def)
  have we_saved: "saved we = saved w @ [j1]" by (simp add: we_def w1_def emitProgress_def)
  have we_emitted: "set (emitted we) \<subseteq> set (emitted w) \<union> {progress_event_of (arg_userId c) jid j1}"
    by (auto simp: we_def w1_def d1_def emitProgress_def progress_event_of_def)
  have init: "reader_inv Q (arg_userId c) j1 we d1 we d1"
    by (rule reader_inv_init) (simp_all add: d1_def j1_simps Q0 we_jobs)
  have Qn': "\<And>rows. ftype = ''xlsx'' \<Longrightarrow> as_xlsx file = Inr rows \<Longrightarrow>
               Q (recompute ((progress (content d1))\<lparr>total_count := int (length rows)\<rparr>))"
    using Qn by (simp add: d1_def j1_simps)
  note inv = run_reader_inv [OF st init Qn' rr]
  from inv obtain p where p: "Q p" "content d2 = j1\<lparr>progress := p\<rparr>" "modified d2 = {}"
      "jobs w2 = (jobs we)(jid \<mapsto> j1\<lparr>progress := p\<rparr>)"
    unfolding reader_inv_def by (auto simp: d1_def j1_simps)
  from inv have sv: "\<forall>s \<in> set (saved w2). s \<in> set (saved we) \<or> (\<exists>p. Q p \<and> s = j1\<lparr>progress := p\<rparr>)"
    and em: "\<forall>ev \<in> set (emitted w2). ev \<in> set (emitted we) \<or>
           (\<exists>p. Q p \<and> ev = progress_event_of (arg_userId c) jid (j1\<lparr>progress := p\<rparr>))"
    unfolding reader_inv_def by (auto simp: d1_def j1_simps)
  have sv2: "\<forall>s \<in> set (saved w2). s \<in> set (saved w) \<or> (Q (progress s) \<and> errors s = errors j0)"
  proof
    fix s assume "s \<in> set (saved w2)"
    with sv have "s \<in> set (saved w) \<or> s = j1 \<or> (\<exists>p. Q p \<and> s = j1\<lparr>progress := p\<rparr>)"
      by (auto simp: we_saved)
    then show "s \<in> set (saved w) \<or> (Q (progress s) \<and> errors s = errors j0)"
      using Q0 j1_simps by auto
  qed
  have em2: "\<forall>ev \<in> set (emitted w2). ev \<in> set (emitted w) \<or>
        (Q (ev_progress ev) \<and> ev_errors ev = take 10 (errors j0))"
  proof
    fix ev assume "ev \<in> set (emitted w2)"
    with em we_emitted have "ev \<in> set (emitted w) \<or> ev = progress_event_of (arg_userId c) jid j1
       \<or> (\<exists>p. Q p \<and> ev = progress_event_of (arg_userId c) jid (j1\<lparr>progress := p\<rparr>))"
      by blast
    then show "ev \<in> set (emitted w) \<or> (Q (ev_progress ev) \<and> ev_errors ev = take 10 (errors j0))"
      using Q0 j1_simps by (auto simp: progress_event_of_def)
  qed
  have js2: "jobs w2 (jobId (content d2)) = Some (j1\<lparr>progress := p\<rparr>)"
    using p(2,4) j1_simps by simp
  have st2: "startTime (summary (j1\<lparr>progress := p\<rparr>)) = startTime (summary (content d2))"
    using p(2) by simp
  have jid2: "jobId (content d2) = jid" using p(2) j1_simps by simp
  show ?thesis
  proof (cases o2)
    case (Inr res)
    define jf where "jf = ended Completed t1 (j1\<lparr>progress := p\<rparr>)"
    have "processBulkUpload svc f jid file ftype c t0 t1 w =
        (Inr res, fst (complete_job c jid t1 res w2 d2))"
      using job(1) start rr Inr by (simp add: processBulkUpload_def findOne_def we_def)
    with run [symmetric] have "(out, w') = (Inr res, fst (complete_job c jid t1 res w2 d2))"
      by (rule trans)
    then have out: "out = Inr res" and w': "w' = fst (complete_job c jid t1 res w2 d2)"
      by (simp_all only: prod.inject)
    have rd: "o2 = out" using Inr out by simp
    note ce = complete_eq [OF p(3) js2 st2, of c jid t1 res]
    have jobs': "jobs w' = (jobs w)(jid \<mapsto> jf)"
      using w' ce jid2 p(4) we_jobs by (simp add: emitProgress_def jf_def)
    have saved': "saved w' = saved w2 @ [jf]"
      using w' ce by (simp add: emitProgress_def jf_def)
    have codes': "authCodes w' = authCodes w2"
      using w' ce by (simp add: emitProgress_def)
    have emitted': "set (emitted w') \<subseteq> set (emitted w2) \<union>
        {progress_event_of (arg_userId c) jid (ended Completed t1 (content d2))}"
      using w' ce by (auto simp: emitProgress_def progress_event_of_def)
    have jf_simps: "progress jf = p" "status jf = Completed" "errors jf = errors j0"
      using j1_simps by (simp_all add: jf_def ended_def)
    have fin_ev: "ev_progress (progress_event_of (arg_userId c) jid (ended Completed t1 (content d2))) = p"
      "ev_errors (progress_event_of (arg_userId c) jid (ended Completed t1 (content d2)))
         = take 10 (errors j0)"
      using p(2) j1_simps by (simp_all add: progress_event_of_def ended_def)
    have a: "\<forall>s \<in> set (saved w'). s \<in> set (saved w) \<or>
             (Q (progress s) \<and> (errors s = errors j0 \<or> s = jf))"
    proof
      fix s assume "s \<in> set (saved w')"
      then have "s \<in> set (saved w2) \<or> s = jf" unfolding saved' by auto
      then show "s \<in> set (saved w) \<or> (Q (progress s) \<and> (errors s = errors j0 \<or> s = jf))"
        using sv2 jf_simps(1) p(1) by blast
    qed
    have b: "\<forall>ev \<in> set (emitted w'). ev \<in> set (emitted w) \<or>
             (Q (ev_progress ev) \<and>
              (ev_errors ev = take 10 (errors j0) \<or> ev_errors ev = take 10 (errors jf)))"
    proof
      fix ev assume "ev \<in> set (emitted w')"
      with emitted' have "ev \<in> set (emitted w2) \<or>
          ev = progress_event_of (arg_userId c) jid (ended Completed t1 (content d2))"
        by blast
      then show "ev \<in> set (emitted w) \<or>
             (Q (ev_progress ev) \<and>
              (ev_errors ev = take 10 (errors j0) \<or> ev_errors ev = take 10 (errors jf)))"
      proof
        assume "ev \<in> set (emitted w2)"
        with em2 show ?thesis by blast
      next
        assume "ev = progress_event_of (arg_userId c) jid (ended Completed t1 (content d2))"
        with fin_ev p(1) show ?thesis by simp
      qed
    qed
    show ?thesis
    proof (intro exI [of _ jf] conjI)
      show "jobs w' = (jobs w)(jid \<mapsto> jf)" by (fact jobs')
      show "Q (progress jf)" using jf_simps(1) p(1) by simp
      show "last (saved w') = jf" unfolding saved' by simp
      show "case out of
             Inr res \<Rightarrow> status jf = Completed \<and> errors jf = errors j0
           | Inl (Error m) \<Rightarrow> status jf = Failed \<and>
               errors jf = (if length (errors j0) < maxErrors j0
                            then errors j0 @ [system_error m] else errors j0)"
        unfolding out using jf_simps(2,3) by simp
      show "\<exists>w1 w2 d2. authCodes w1 = authCodes w \<and> brands w1 = brands w \<and>
             run_reader svc f c file ftype w1 \<lparr>content = started t0 j0, modified = {}\<rparr>
               = (out, w2, d2) \<and> progress jf = progress (content d2) \<and>
             authCodes w' = authCodes w2"
      proof (rule exI [of _ we], rule exI [of _ w2], rule exI [of _ d2], intro conjI)
        show "authCodes w' = authCodes w2" by (fact codes')
        show "authCodes we = authCodes w" by (simp add: we_def w1_def emitProgress_def)
        show "brands we = brands w" by (simp add: we_def w1_def emitProgress_def)
        show "run_reader svc f c file ftype we \<lparr>content = started t0 j0, modified = {}\<rparr>
               = (out, w2, d2)"
          using rr rd by (simp add: d1_def j1_def)
        show "progress jf = progress (content d2)" using p(2) jf_simps(1) by simp
      qed
    qed (rule a, rule b)
  next
    case (Inl e)
    obtain m where e: "e = Error m" by (cases e)
    define jf where "jf = failed_record m t1 (content d2) (j1\<lparr>progress := p\<rparr>)"
    have "processBulkUpload svc f jid file ftype c t0 t1 w =
        (Inl (Error m), fst (fail_job c jid t1 (Error m) w2 d2))"
      using job(1) start rr Inl e by (simp add: processBulkUpload_def findOne_def we_def)
    with run [symmetric]
    have "(out, w') = (Inl (Error m), fst (fail_job c jid t1 (Error m) w2 d2))"
      by (rule trans)
    then have out: "out = Inl (Error m)"
      and w': "w' = fst (fail_job c jid t1 (Error m) w2 d2)"
      by (simp_all only: prod.inject)
    have rd: "o2 = out" using Inl e out by simp
    note fe = fail_eq [OF p(3) js2 st2, of c jid t1 m]
    have jobs': "jobs w' = (jobs w)(jid \<mapsto> jf)"
      using w' fe(1) jid2 p(4) we_jobs by (simp add: jf_def)
    have saved': "saved w' = saved w2 @ [jf]"
      using w' fe(2) by (simp add: jf_def)
    have codes': "authCodes w' = authCodes w2"
      using w' fe(5) by simp
    have emitted': "set (emitted w') \<subseteq> set (emitted w2) \<union>
        {progress_event_of (arg_userId c) jid (failed_record m t1 (content d2) (content d2))}"
      using w' fe(3) by auto
    have jf_simps: "progress jf = p" "status jf = Failed"
      "errors jf = (if length (errors j0) < maxErrors j0
                            then errors j0 @ [system_error m] else errors j0)"
      using j1_simps p(2) by (simp_all add: jf_def failed_record_def ended_def)
    have fin_ev: "ev_progress (progress_event_of (arg_userId c) jid
           (failed_record m t1 (content d2) (content d2))) = p"
      "ev_errors (progress_event_of (arg_userId c) jid
           (failed_record m t1 (content d2) (content d2))) = take 10 (errors jf)"
      using p(2) j1_simps by (simp_all add: progress_event_of_def failed_record_def ended_def jf_def)
    have a: "\<forall>s \<in> set (saved w'). s \<in> set (saved w) \<or>
             (Q (progress s) \<and> (errors s = errors j0 \<or> s = jf))"
    proof
      fix s assume "s \<in> set (saved w')"
      then have "s \<in> set (saved w2) \<or> s = jf" unfolding saved' by auto
      then show "s \<in> set (saved w) \<or> (Q (progress s) \<and> (errors s = errors j0 \<or> s = jf))"
        using sv2 jf_simps(1) p(1) by blast
    qed
    have b: "\<forall>ev \<in> set (emitted w'). ev \<in> set (emitted w) \<or>
             (Q (ev_progress ev) \<and>
              (ev_errors ev = take 10 (errors j0) \<or> ev_errors ev = take 10 (errors jf)))"
    proof
      fix ev assume "ev \<in> set (emitted w')"
      with emitted' have "ev \<in> set (emitted w2) \<or>
          ev = progress_event_of (arg_userId c) jid (failed_record m t1 (content d2) (content d2))"
        by blast
      then show "ev \<in> set (emitted w) \<or>
             (Q (ev_progress ev) \<and>
              (ev_errors ev = take 10 (errors j0) \<or> ev_errors ev = take 10 (errors jf)))"
      proof
        assume "ev \<in> set (emitted w2)"
        with em2 show ?thesis by blast
      next
        assume "ev = progress_event_of (arg_userId c) jid (failed_record m t1 (content d2) (content d2))"
        with fin_ev p(1) show ?thesis by simp
      qed
    qed
    show ?thesis
    proof (intro exI [of _ jf] conjI)
      show "jobs w' = (jobs w)(jid \<mapsto> jf)" by (fact jobs')
      show "Q (progress jf)" using jf_simps(1) p(1) by simp
      show "last (saved w') = jf" unfolding saved' by simp
      show "case out of
             Inr res \<Rightarrow> status jf = Completed \<and> errors jf = errors j0
           | Inl (Error m) \<Rightarrow> status jf = Failed \<and>
               errors jf = (if length (errors j0) < maxErrors j0
                            then errors j0 @ [system_error m] else errors j0)"
        unfolding out using jf_simps(2,3) by simp
      show "\<exists>w1 w2 d2. authCodes w1 = authCodes w \<and> brands w1 = brands w \<and>
             run_reader svc f c file ftype w1 \<lparr>content = started t0 j0, modified = {}\<rparr>
               = (out, w2, d2) \<and> progress jf = progress (content d2) \<and>
             authCodes w' = authCodes w2"
      proof (rule exI [of _ we], rule exI [of _ w2], rule exI [of _ d2], intro conjI)
        show "authCodes w' = authCodes w2" by (fact codes')
        show "authCodes we = authCodes w" by (simp add: we_def w1_def emitProgress_def)
        show "brands we = brands w" by (simp add: we_def w1_def emitProgress_def)
        show "run_reader svc f c file ftype we \<lparr>content = started t0 j0, modified = {}\<rparr>
               = (out, w2, d2)"
          using rr rd by (simp add: d1_def j1_def)
        show "progress jf = progress (content d2)" using p(2) jf_simps(1) by simp
      qed
    qed (rule a, rule b)
  qed
qed


lemma stable_zero: "stable (\<lambda>p. total_count p = 0 \<and> percentage p = 0)"
  by (simp add: stable_def add_batch_def recompute_def)

lemma stable_True: "stable (\<lambda>p. True)"
  by (simp add: stable_def)


subsection \<open>What a batch inserts\<close>

lemma filter_duplicates_eq:
  "filter_duplicates S bid pid cs (nc, dc, es) =
     (nc @ map (doc_of bid pid) (filter (\<lambda>item. code item \<notin> S) cs),
      dc + int (length (filter (\<lambda>item. code item \<in> S) cs)),
      es @ map duplicate_error (filter (\<lambda>item. code item \<in> S) cs))"
  by (induction cs arbitrary: nc dc es) (simp_all add: doc_of_def duplicate_error_def)

lemma existing_filter:
  "filter (\<lambda>item. code item \<in> set (map doc_code
       (filter (\<lambda>a. doc_code a \<in> set (map code cs)) (authCodes w)))) cs = known w cs"
  "filter (\<lambda>item. code item \<notin> set (map doc_code
       (filter (\<lambda>a. doc_code a \<in> set (map code cs)) (authCodes w)))) cs =
   filter (\<lambda>item. code item \<notin> doc_code ` set (authCodes w)) cs"
proof -
  have mem: "code item \<in> set (map doc_code
       (filter (\<lambda>a. doc_code a \<in> set (map code cs)) (authCodes w))) \<longleftrightarrow>
     code item \<in> doc_code ` set (authCodes w)" if "item \<in> set cs" for item
    using that by (force simp: image_iff)
  show "filter (\<lambda>item. code item \<in> set (map doc_code
       (filter (\<lambda>a. doc_code a \<in> set (map code cs)) (authCodes w)))) cs = known w cs"
    unfolding known_def by (rule filter_cong [OF refl]) (rule mem)
  show "filter (\<lambda>item. code item \<notin> set (map doc_code
       (filter (\<lambda>a. doc_code a \<in> set (map code cs)) (authCodes w)))) cs =
   filter (\<lambda>item. code item \<notin> doc_code ` set (authCodes w)) cs"
    by (rule filter_cong [OF refl]) (simp only: mem)
qed

lemma processBatch_plan:
  "processBatch f cs bid pid d errs io uid w =
     (if new_docs w bid pid cs = []
      then (case report_batch cs 0 (int (length (known w cs))) d io uid w of
              (st, w', d') \<Rightarrow> (Inr st, errs @ map duplicate_error (known w cs), w', d'))
      else (case insertMany f (authCodes w) (new_docs w bid pid cs) of
              (store, Inserted n) \<Rightarrow>
                (case report_batch cs (int n) (int (length (known w cs))) d io uid
                        (w\<lparr>authCodes := store\<rparr>) of
                   (st, w', d') \<Rightarrow> (Inr st, errs @ map duplicate_error (known w cs), w', d'))
            | (store, BulkWriteError c k m) \<Rightarrow>
                if c = 11000
                then (case report_batch cs (int (length (new_docs w bid pid cs)) - int k)
                             (int (length (known w cs)) + int k) d io uid
                             (w\<lparr>authCodes := store\<rparr>) of
                        (st, w', d') \<Rightarrow>
                          (Inr st, errs @ map duplicate_error (known w cs), w', d'))
                else (Inl (Error (''Batch processing error: '' @ m)),
                      errs @ map duplicate_error (known w cs), w\<lparr>authCodes := store\<rparr>, d)))"
  unfolding processBatch_def Let_def filter_duplicates_eq existing_filter new_docs_def
  by simp

lemma length_split: "int (length cs) = int (length (new_docs w bid pid cs)) + int (length (known w cs))"
  unfolding new_docs_def known_def
  using sum_length_filter_compl [of "\<lambda>item. code item \<in> doc_code ` set (authCodes w)" cs]
  by simp

subsection \<open>The counters of the document and of the reader\<close>

lemma stable_counters_ok: "stable counters_ok"
  by (simp add: stable_def counters_ok_def add_batch_def recompute_def)

lemma report_batch_doc:
  "report_batch cs ins dups d io uid w = (st, w', d') \<Longrightarrow>
   st = \<lparr>processed = int (length cs), successful = ins,
         failed = int (length cs) - ins - dups, duplicates = dups\<rparr> \<and>
   progress (content d') = add_batch (int (length cs)) ins dups (progress (content d))"
  by (auto simp: report_batch_def updateProgress_def save_def add_batch_def assign_def Let_def
      split: option.splits prod.splits)

lemma processBatch_doc:
  assumes "processBatch f cs bid pid d errs io uid w = (out, errs', w', d')"
  shows "case out of
           Inl e \<Rightarrow> d' = d
         | Inr st \<Rightarrow> processed st = int (length cs) \<and>
             failed st = processed st - successful st - duplicates st \<and>
             progress (content d') =
               add_batch (processed st) (successful st) (duplicates st) (progress (content d))"
proof -
  from processBatch_cases [of f cs bid pid d errs io uid w]
  obtain store e1 where "(\<exists>m. processBatch f cs bid pid d errs io uid w =
        (Inl (Error m), e1, w\<lparr>authCodes := store\<rparr>, d))
   \<or> (\<exists>ins dups. processBatch f cs bid pid d errs io uid w =
         (case report_batch cs ins dups d io uid (w\<lparr>authCodes := store\<rparr>) of
            (st, w', d') \<Rightarrow> (Inr st, e1, w', d')))" by blast
  then show ?thesis
  proof
    assume "\<exists>m. processBatch f cs bid pid d errs io uid w =
        (Inl (Error m), e1, w\<lparr>authCodes := store\<rparr>, d)"
    with assms show ?thesis by auto
  next
    assume "\<exists>ins dups. processBatch f cs bid pid d errs io uid w =
         (case report_batch cs ins dups d io uid (w\<lparr>authCodes := store\<rparr>) of
            (st, w', d') \<Rightarrow> (Inr st, e1, w', d'))"
    then obtain ins dups where eq: "processBatch f cs bid pid d errs io uid w =
         (case report_batch cs ins dups d io uid (w\<lparr>authCodes := store\<rparr>) of
            (st, w', d') \<Rightarrow> (Inr st, e1, w', d'))" by blast
    obtain st w1 d1 where rb: "report_batch cs ins dups d io uid (w\<lparr>authCodes := store\<rparr>)
        = (st, w1, d1)" by (metis prod_cases3)
    from assms eq rb have "out = Inr st" "d' = d1" by simp_all
    with report_batch_doc [OF rb] show ?thesis by simp
  qed
qed

lemma flush_ahead:
  assumes pb: "processBatch f (codes l) bid pid d (row_errors l) io uid w = (Inr st, errs', w', d')"
    and ah: "ahead l (progress (content d)) a b c e"
  shows "ahead (add_stats st (l\<lparr>row_errors := errs'\<rparr>)) (progress (content d')) a b c e"
    and "ahead ((add_stats st (l\<lparr>row_errors := errs'\<rparr>))\<lparr>codes := []\<rparr>) (progress (content d')) a b c e"
  using processBatch_doc [OF pb] ah
  by (simp_all add: ahead_def add_stats_def add_batch_def recompute_def)

lemma csv_on_data_ahead:
  assumes run: "csv_on_data svc f c r l w d = (Inr l', w', d')"
    and ah: "ahead l (progress (content d)) a b k e"
  shows "ahead l' (progress (content d')) a b
           (k - (case extractCode r of Inr (Some cd) \<Rightarrow> 0 | _ \<Rightarrow> 1)) e"
proof (cases "extractCode r")
  case (Inl x)
  then show ?thesis using run ah
    by (cases x) (auto simp: csv_on_data_def Let_def row_failed_def ahead_def)
next
  case (Inr x)
  define l2 where "l2 = keep_or_drop x (row_counter l + 1) (l\<lparr>row_counter := row_counter l + 1\<rparr>)"
  have ah2: "ahead l2 (progress (content d)) a b
           (k - (case extractCode r of Inr (Some cd) \<Rightarrow> 0 | _ \<Rightarrow> 1)) e"
    using ah Inr
    by (cases x) (simp_all add: l2_def keep_or_drop_def row_failed_def push_code_def ahead_def)
  show ?thesis
  proof (cases "BATCH_SIZE svc \<le> length (codes l2)")
    case False
    then have "csv_on_data svc f c r l w d = (Inr l2, w, d)"
      using Inr by (simp add: csv_on_data_def Let_def l2_def)
    with run ah2 show ?thesis by simp
  next
    case True
    obtain o1 e1 w1 d1 where pb: "processBatch f (codes l2) (arg_brandId c) (arg_productId c) d
        (row_errors l2) (arg_io c) (arg_userId c) w = (o1, e1, w1, d1)"
      by (metis prod_cases4)
    show ?thesis
    proof (cases o1)
      case (Inl e)
      with run Inr True pb show ?thesis by (simp add: csv_on_data_def Let_def l2_def)
    next
      case st: (Inr st)
      with run Inr True pb have "l' = (add_stats st (l2\<lparr>row_errors := e1\<rparr>))\<lparr>codes := []\<rparr>"
        "d' = d1"
        by (simp_all add: csv_on_data_def Let_def l2_def)
      with flush_ahead(2) [OF pb [unfolded st] ah2] show ?thesis by simp
    qed
  qed
qed

lemma csv_events_ahead:
  "csv_events svc f c evs l w d = (Inr res, w', d') \<Longrightarrow>
   ahead l (progress (content d)) a b k e \<Longrightarrow>
   processed (progress (content d')) - processed res = a \<and>
   successful (progress (content d')) - successful res = b \<and>
   failed (progress (content d')) - failed res = k - dropped evs \<and>
   duplicates (progress (content d')) - duplicates res = e"
proof (induction evs arbitrary: l w d k)
  case Nil
  show ?case
  proof (cases "codes l = []")
    case True
    with Nil show ?thesis by (auto simp: csv_on_end_def result_of_def ahead_def)
  next
    case False
    obtain o1 e1 w1 d1 where pb: "processBatch f (codes l) (arg_brandId c) (arg_productId c) d
        (row_errors l) (arg_io c) (arg_userId c) w = (o1, e1, w1, d1)"
      by (metis prod_cases4)
    show ?thesis
    proof (cases o1)
      case (Inl x)
      with Nil(1) False pb show ?thesis by (simp add: csv_on_end_def)
    next
      case st: (Inr st)
      with Nil(1) False pb have "res = result_of svc (add_stats st (l\<lparr>row_errors := e1\<rparr>))"
        "d' = d1" by (simp_all add: csv_on_end_def)
      with flush_ahead(1) [OF pb [unfolded st] Nil(2)] show ?thesis
        by (simp add: result_of_def ahead_def)
    qed
  qed
next
  case (Cons ev evs)
  show ?case
  proof (cases ev)
    case (StreamError m)
    with Cons.prems show ?thesis by simp
  next
    case (Data r)
    obtain o1 w1 d1 where od: "csv_on_data svc f c r l w d = (o1, w1, d1)"
      by (metis prod_cases3)
    show ?thesis
    proof (cases o1)
      case (Inl x)
      with Cons.prems(1) Data od show ?thesis by simp
    next
      case (Inr l1)
      with Cons.prems(1) Data od have ce: "csv_events svc f c evs l1 w1 d1 = (Inr res, w', d')"
        by simp
      note ah1 = csv_on_data_ahead [OF od [unfolded Inr] Cons.prems(2)]
      from Cons.IH [OF ce ah1] show ?thesis
        using Data by (auto split: sum.splits option.splits)
    qed
  qed
qed

subsection \<open>Repeated codes under the CSV reader\<close>

text \<open>
  With a collection that rejects nothing but stored codes, an unordered insertion
  stores every new code once and rejects the rest with 11000, so a batch counts the
  new codes as successes and everything else as duplicates.
\<close>

lemma insert_unordered_healthy:
  "insert_unordered healthy store xs = (store', n, es) \<Longrightarrow>
   doc_code ` set store' = doc_code ` set store \<union> doc_code ` set xs \<and>
   n = card (doc_code ` set xs - doc_code ` set store) \<and>
   n + length es = length xs \<and> (\<forall>e \<in> set es. fst e = 11000)"
proof (induction xs arbitrary: store store' n es)
  case Nil
  then show ?case by simp
next
  case (Cons x xs)
  show ?case
  proof (cases "doc_code x \<in> doc_code ` set store")
    case True
    obtain s1 n1 e1 where r: "insert_unordered healthy store xs = (s1, n1, e1)"
      by (metis prod_cases3)
    with Cons.prems True have eq: "store' = s1" "n = n1" "es = (11000, duplicate_key_message) # e1"
      by (simp_all add: healthy_def)
    have c: "insert (doc_code x) (doc_code ` set xs) - doc_code ` set store =
          doc_code ` set xs - doc_code ` set store"
      using True by auto
    from Cons.IH [OF r] have ih: "doc_code ` set s1 = doc_code ` set store \<union> doc_code ` set xs"
      "n1 = card (doc_code ` set xs - doc_code ` set store)"
      "n1 + length e1 = length xs" "\<forall>e \<in> set e1. fst e = 11000"
      by blast+
    have "doc_code ` set store' = doc_code ` set store \<union> doc_code ` set (x # xs)"
      using ih(1) eq(1) True by auto
    moreover have "n = card (doc_code ` set (x # xs) - doc_code ` set store)"
      using ih(2) eq(2) c by simp
    moreover have "n + length es = length (x # xs)" using ih(3) eq by simp
    moreover have "\<forall>e \<in> set es. fst e = 11000" using ih(4) eq by simp
    ultimately show ?thesis by blast
  next
    case False
    obtain s1 n1 e1 where r: "insert_unordered healthy (store @ [x]) xs = (s1, n1, e1)"
      by (metis prod_cases3)
    with Cons.prems False have eq: "store' = s1" "n = Suc n1" "es = e1"
      by (simp_all add: healthy_def)
    have cardeq: "card (insert a A - S) = Suc (card (A - insert a S))"
      if "a \<notin> S" "finite A" for a :: string and A S
    proof -
      have "insert a A - S = insert a (A - insert a S)" using that(1) by auto
      moreover have "a \<notin> A - insert a S" by simp
      moreover have "finite (A - insert a S)" using that(2) by simp
      ultimately show ?thesis by (metis card_insert_disjoint)
    qed
    have c: "card (insert (doc_code x) (doc_code ` set xs) - doc_code ` set store) =
        Suc (card (doc_code ` set xs - insert (doc_code x) (doc_code ` set store)))"
      by (rule cardeq [OF False]) simp
    from Cons.IH [OF r] have ih: "doc_code ` set s1 = doc_code ` set (store @ [x]) \<union> doc_code ` set xs"
      "n1 = card (doc_code ` set xs - doc_code ` set (store @ [x]))"
      "n1 + length e1 = length xs" "\<forall>e \<in> set e1. fst e = 11000"
      by blast+
    have "doc_code ` set store' = doc_code ` set store \<union> doc_code ` set (x # xs)"
      using ih(1) eq(1) by auto
    moreover have "n = card (doc_code ` set (x # xs) - doc_code ` set store)"
      using ih(2) eq(2) c by simp
    moreover have "n + length es = length (x # xs)" using ih(3) eq by simp
    moreover have "\<forall>e \<in> set es. fst e = 11000" using ih(4) eq by simp
    ultimately show ?thesis by blast
  qed
qed

lemma report_batch_codes:
  "report_batch cs ins dups d io uid w = (st, w', d') \<Longrightarrow> authCodes w' = authCodes w"
  by (auto simp: report_batch_def updateProgress_def save_def emitProgress_def Let_def
      split: option.splits prod.splits if_splits)

lemma new_docs_codes: "doc_code ` set (new_docs w bid pid cs) = code ` set cs - stored w"
proof -
  have "map doc_code (new_docs w bid pid cs) =
      map code (filter (\<lambda>item. code item \<notin> stored w) cs)"
    by (simp add: new_docs_def doc_of_def stored_def)
  then have "set (map doc_code (new_docs w bid pid cs)) =
      set (map code (filter (\<lambda>item. code item \<notin> stored w) cs))"
    by simp
  then show ?thesis by auto
qed

lemma processBatch_healthy:
  "\<exists>st errs' w' d'. processBatch healthy cs bid pid d errs io uid w = (Inr st, errs', w', d') \<and>
     processed st = int (length cs) \<and>
     successful st = int (card (code ` set cs - stored w)) \<and> failed st = 0 \<and>
     duplicates st = int (length cs) - int (card (code ` set cs - stored w)) \<and>
     stored w' = stored w \<union> code ` set cs"
proof (cases "new_docs w bid pid cs = []")
  case True
  obtain st w' d' where rb: "report_batch cs 0 (int (length (known w cs))) d io uid w = (st, w', d')"
    by (metis prod_cases3)
  have sub: "code ` set cs - stored w = {}" using new_docs_codes [of w bid pid cs] True by simp
  then have "stored w \<union> code ` set cs = stored w" by blast
  moreover have "int (length (known w cs)) = int (length cs)"
    using length_split [of cs w bid pid] True by simp
  ultimately show ?thesis
    using True rb report_batch_doc [OF rb] report_batch_codes [OF rb] sub
    by (simp add: processBatch_plan stored_def)
next
  case False
  obtain s1 n es where iu: "insert_unordered healthy (authCodes w) (new_docs w bid pid cs) = (s1, n, es)"
    by (metis prod_cases3)
  note h = insert_unordered_healthy [OF iu]
  have n: "n = card (code ` set cs - stored w)"
    using h new_docs_codes [of w bid pid cs] by (simp add: stored_def Diff_Diff_Int Diff_triv) 
  have st1: "doc_code ` set s1 = stored w \<union> code ` set cs"
    using h new_docs_codes [of w bid pid cs] by (auto simp: stored_def)
  show ?thesis
  proof (cases es)
    case Nil
    then have im: "insertMany healthy (authCodes w) (new_docs w bid pid cs) = (s1, Inserted n)"
      using iu by (simp add: insertMany_def)
    obtain st w' d' where rb: "report_batch cs (int n) (int (length (known w cs))) d io uid
        (w\<lparr>authCodes := s1\<rparr>) = (st, w', d')"
      by (metis prod_cases3)
    have "int (length (new_docs w bid pid cs)) = int n" using h Nil by simp
    then show ?thesis
      using False im rb report_batch_doc [OF rb] report_batch_codes [OF rb] n st1
        length_split [of cs w bid pid]
      by (simp add: processBatch_plan stored_def)
  next
    case (Cons e es')
    obtain c m where e: "e = (c, m)" by (cases e)
    have c: "c = 11000" using h Cons e by simp
    have im: "insertMany healthy (authCodes w) (new_docs w bid pid cs) =
        (s1, BulkWriteError 11000 (length es) m)"
      using iu Cons e c by (simp add: insertMany_def)
    obtain st w' d' where rb: "report_batch cs (int (length (new_docs w bid pid cs)) - int (length es))
        (int (length (known w cs)) + int (length es)) d io uid (w\<lparr>authCodes := s1\<rparr>) = (st, w', d')"
      by (metis prod_cases3)
    have "int (length (new_docs w bid pid cs)) = int n + int (length es)" using h by simp
    then show ?thesis
      using False im rb report_batch_doc [OF rb] report_batch_codes [OF rb] n st1
        length_split [of cs w bid pid]
      by (simp add: processBatch_plan stored_def)
  qed
qed

lemma extracted_Data: "extracted (Data r # evs) = row_codes r @ extracted evs"
  by (simp add: row_codes_def split: sum.splits option.splits)

lemma dropped_Data: "dropped (Data r # evs) = (1 - int (length (row_codes r))) + dropped evs"
  by (simp add: row_codes_def split: sum.splits option.splits)

lemma card_split:
  assumes "finite C" "finite X"
  shows "card ((C \<union> X) - S) = card (C - S) + card (X - (S \<union> C))"
proof -
  have "(C \<union> X) - S = (C - S) \<union> (X - (S \<union> C))" by blast
  moreover have "(C - S) \<inter> (X - (S \<union> C)) = {}" by blast
  ultimately show ?thesis using assms by (simp add: card_Un_disjoint)
qed

lemma flush_healthy:
  "\<exists>st errs' w' d'.
     processBatch healthy (codes l) bid pid d (row_errors l) io uid w = (Inr st, errs', w', d') \<and>
     (\<forall>X. finite X \<longrightarrow>
        potential ((add_stats st (l\<lparr>row_errors := errs'\<rparr>))\<lparr>codes := []\<rparr>) w' X = potential l w X) \<and>
     seen ((add_stats st (l\<lparr>row_errors := errs'\<rparr>))\<lparr>codes := []\<rparr>) = seen l \<and>
     successful st + duplicates st = int (length (codes l)) \<and> failed st = 0 \<and>
     successful st = int (card (code ` set (codes l) - stored w)) \<and>
     stored w' = stored w \<union> code ` set (codes l)"
proof -
  from processBatch_healthy [of "codes l" bid pid d "row_errors l" io uid w]
  obtain st errs' w' d' where pb:
    "processBatch healthy (codes l) bid pid d (row_errors l) io uid w = (Inr st, errs', w', d')"
    "processed st = int (length (codes l))"
    "successful st = int (card (code ` set (codes l) - stored w))" "failed st = 0"
    "duplicates st = int (length (codes l)) - int (card (code ` set (codes l) - stored w))"
    "stored w' = stored w \<union> code ` set (codes l)"
    by blast
  have pot: "potential ((add_stats st (l\<lparr>row_errors := errs'\<rparr>))\<lparr>codes := []\<rparr>) w' X = potential l w X"
    if "finite X" for X
    using card_split [of "code ` set (codes l)" X "stored w"] that pb(3,6)
    by (simp add: potential_def add_stats_def)
  have "seen ((add_stats st (l\<lparr>row_errors := errs'\<rparr>))\<lparr>codes := []\<rparr>) = seen l"
    using pb(3,5) by (simp add: seen_def add_stats_def)
  with pb pot show ?thesis by (intro exI [of _ st] exI [of _ errs'] exI [of _ w'] exI [of _ d']) simp
qed

lemma csv_on_data_healthy:
  "\<exists>l' w' d'. csv_on_data svc healthy c r l w d = (Inr l', w', d') \<and>
     (\<forall>X. finite X \<longrightarrow> potential l' w' X = potential l w (set (row_codes r) \<union> X)) \<and>
     seen l' = seen l + int (length (row_codes r)) \<and>
     failedCount l' = failedCount l + (1 - int (length (row_codes r))) \<and>
     stored w' \<union> code ` set (codes l') = stored w \<union> code ` set (codes l) \<union> set (row_codes r)"
proof -
  define l2 where "l2 = (case extractCode r of
      Inl e \<Rightarrow> row_failed (row_counter l + 1) (case e of Error m \<Rightarrow> m)
                 (l\<lparr>row_counter := row_counter l + 1\<rparr>)
    | Inr x \<Rightarrow> keep_or_drop x (row_counter l + 1) (l\<lparr>row_counter := row_counter l + 1\<rparr>))"
  have l2: "codes l2 = codes l @ map (\<lambda>cd. \<lparr>code = cd, rowNumber = row_counter l + 1\<rparr>) (row_codes r)"
    "successfulCount l2 = successfulCount l" "duplicatesCount l2 = duplicatesCount l"
    "failedCount l2 = failedCount l + (1 - int (length (row_codes r)))"
    by (auto simp: l2_def row_codes_def keep_or_drop_def row_failed_def push_code_def
        split: sum.splits option.splits)
  have cs2: "code ` set (codes l2) = code ` set (codes l) \<union> set (row_codes r)"
    unfolding l2(1) by (auto simp: image_Un image_image)
  have pot2: "potential l2 w X = potential l w (set (row_codes r) \<union> X)" for X
    unfolding potential_def cs2 by (simp add: l2(2) Un_assoc)
  have seen2: "seen l2 = seen l + int (length (row_codes r))"
    by (simp add: seen_def l2)
  consider (throw) e where "extractCode r = Inl e"
    | (keep) x where "extractCode r = Inr x" "\<not> BATCH_SIZE svc \<le> length (codes l2)"
    | (flush) x where "extractCode r = Inr x" "BATCH_SIZE svc \<le> length (codes l2)"
    by (cases "extractCode r") auto
  then show ?thesis
  proof cases
    case throw
    then have "csv_on_data svc healthy c r l w d = (Inr l2, w, d)"
      by (cases e) (simp add: csv_on_data_def Let_def l2_def)
    then show ?thesis using pot2 seen2 l2(4) cs2 by auto
  next
    case keep
    then have "csv_on_data svc healthy c r l w d = (Inr l2, w, d)"
      by (simp add: csv_on_data_def Let_def l2_def)
    then show ?thesis using pot2 seen2 l2(4) cs2 by auto
  next
    case flush
    from flush_healthy [of l2 "arg_brandId c" "arg_productId c" d "arg_io c" "arg_userId c" w]
    obtain st errs' w' d' where pb:
      "processBatch healthy (codes l2) (arg_brandId c) (arg_productId c) d (row_errors l2)
         (arg_io c) (arg_userId c) w = (Inr st, errs', w', d')"
      "\<forall>X. finite X \<longrightarrow>
        potential ((add_stats st (l2\<lparr>row_errors := errs'\<rparr>))\<lparr>codes := []\<rparr>) w' X = potential l2 w X"
      "seen ((add_stats st (l2\<lparr>row_errors := errs'\<rparr>))\<lparr>codes := []\<rparr>) = seen l2"
      "failed st = 0" "stored w' = stored w \<union> code ` set (codes l2)"
      by blast
    define l' where "l' = (add_stats st (l2\<lparr>row_errors := errs'\<rparr>))\<lparr>codes := []\<rparr>"
    have run: "csv_on_data svc healthy c r l w d = (Inr l', w', d')"
      using flush pb(1) by (simp add: csv_on_data_def Let_def l2_def l'_def)
    have "failedCount l' = failedCount l + (1 - int (length (row_codes r)))"
      using pb(4) l2(4) by (simp add: l'_def add_stats_def)
    moreover have "stored w' \<union> code ` set (codes l') =
        stored w \<union> code ` set (codes l) \<union> set (row_codes r)"
      using pb(5) cs2 by (auto simp: l'_def)
    ultimately show ?thesis
      using run pb(2,3) pot2 seen2 unfolding l'_def [symmetric] by auto
  qed
qed

lemma csv_events_healthy:
  "\<exists>res w' d'. csv_events svc healthy c (map Data rows) l w d = (Inr res, w', d') \<and>
     successful res = potential l w (set (extracted (map Data rows))) \<and>
     successful res + duplicates res = seen l + int (length (extracted (map Data rows))) \<and>
     failed res = failedCount l + dropped (map Data rows) \<and>
     stored w' = stored w \<union> code ` set (codes l) \<union> set (extracted (map Data rows))"
proof (induction rows arbitrary: l w d)
  case Nil
  show ?case
  proof (cases "codes l = []")
    case True
    then show ?thesis
      by (simp add: csv_on_end_def result_of_def potential_def seen_def)
  next
    case False
    from flush_healthy [of l "arg_brandId c" "arg_productId c" d "arg_io c" "arg_userId c" w]
    obtain st errs' w' d' where pb:
      "processBatch healthy (codes l) (arg_brandId c) (arg_productId c) d (row_errors l)
         (arg_io c) (arg_userId c) w = (Inr st, errs', w', d')"
      "successful st + duplicates st = int (length (codes l))" "failed st = 0"
      "successful st = int (card (code ` set (codes l) - stored w))"
      "stored w' = stored w \<union> code ` set (codes l)"
      by blast
    have "csv_events svc healthy c (map Data []) l w d =
        (Inr (result_of svc (add_stats st (l\<lparr>row_errors := errs'\<rparr>))), w', d')"
      using False pb(1) by (simp add: csv_on_end_def)
    then show ?thesis
      using pb(2-5) by (simp add: result_of_def add_stats_def potential_def seen_def)
  qed
next
  case (Cons r rows)
  from csv_on_data_healthy [of svc c r l w d]
  obtain l1 w1 d1 where od: "csv_on_data svc healthy c r l w d = (Inr l1, w1, d1)"
    "\<forall>X. finite X \<longrightarrow> potential l1 w1 X = potential l w (set (row_codes r) \<union> X)"
    "seen l1 = seen l + int (length (row_codes r))"
    "failedCount l1 = failedCount l + (1 - int (length (row_codes r)))"
    "stored w1 \<union> code ` set (codes l1) = stored w \<union> code ` set (codes l) \<union> set (row_codes r)"
    by blast
  from Cons.IH [of l1 w1 d1]
  obtain res w' d' where ih: "csv_events svc healthy c (map Data rows) l1 w1 d1 = (Inr res, w', d')"
    "successful res = potential l1 w1 (set (extracted (map Data rows)))"
    "successful res + duplicates res = seen l1 + int (length (extracted (map Data rows)))"
    "failed res = failedCount l1 + dropped (map Data rows)"
    "stored w' = stored w1 \<union> code ` set (codes l1) \<union> set (extracted (map Data rows))"
    by blast
  have run: "csv_events svc healthy c (map Data (r # rows)) l w d = (Inr res, w', d')"
    using od(1) ih(1) by simp
  have a: "successful res = potential l w (set (extracted (map Data (r # rows))))"
    using ih(2) od(2) by (simp add: extracted_Data del: extracted.simps)
  have b: "successful res + duplicates res =
      seen l + int (length (extracted (map Data (r # rows))))"
    using ih(3) od(3) by (simp add: extracted_Data del: extracted.simps)
  have c: "failed res = failedCount l + dropped (map Data (r # rows))"
    using ih(4) od(4) by (simp add: dropped_Data del: dropped.simps)
  have d: "stored w' = stored w \<union> code ` set (codes l) \<union> set (extracted (map Data (r # rows)))"
    using ih(5) od(5) by (auto simp: extracted_Data simp del: extracted.simps)
  from run a b c d show ?case by blast
qed

text \<open>
  A run of the CSV reader returns; its successes are the new codes of the file, each
  once, whatever the batches are, and its duplicates the other codes. A new code that
  the file holds twice is one success and one duplicate.
\<close>

lemma csv_run_healthy:
  assumes job: "jobs w jid = Some j0" "jobId j0 = jid"
    and br: "brands w (arg_brandId c) \<noteq> None"
    and run: "processBulkUpload svc healthy jid \<lparr>as_csv = map Data rows, as_xlsx = x\<rparr> ''csv''
               c t0 t1 w = (out, w')"
  shows "\<exists>res. out = Inr res \<and>
     successful res = int (card (set (extracted (map Data rows)) - stored w)) \<and>
     duplicates res = int (length (extracted (map Data rows))) - successful res \<and>
     failed res = dropped (map Data rows) \<and>
     stored w' = stored w \<union> set (extracted (map Data rows))"
proof -
  from run_summary [of "\<lambda>p. True", OF stable_True _ _ job run]
  obtain w1 w2 d2 where rr: "authCodes w1 = authCodes w" "brands w1 = brands w"
    "run_reader svc healthy c \<lparr>as_csv = map Data rows, as_xlsx = x\<rparr> ''csv'' w1
       \<lparr>content = started t0 j0, modified = {}\<rparr> = (out, w2, d2)"
    "authCodes w' = authCodes w2"
    by auto
  from rr(3) br rr(2) have ce: "csv_events svc healthy c (map Data rows) init_locals w1
      \<lparr>content = started t0 j0, modified = {}\<rparr> = (out, w2, d2)"
    by (simp add: run_reader_def processCSV_def)
  from csv_events_healthy [of svc c rows init_locals w1 "\<lparr>content = started t0 j0, modified = {}\<rparr>"]
    ce
  obtain res where res: "out = Inr res"
    "successful res = potential init_locals w1 (set (extracted (map Data rows)))"
    "successful res + duplicates res = seen init_locals + int (length (extracted (map Data rows)))"
    "failed res = failedCount init_locals + dropped (map Data rows)"
    "stored w2 = stored w1 \<union> code ` set (codes init_locals) \<union> set (extracted (map Data rows))"
    by auto
  have s1: "stored w1 = stored w" "stored w' = stored w2"
    using rr(1,4) by (simp_all add: stored_def)
  show ?thesis
    using res s1
    by (intro exI [of _ res]) (simp add: potential_def seen_def init_locals_def)
qed

lemma csv_same_code_twice:
  assumes job: "jobs w jid = Some j0" "jobId j0 = jid"
    and br: "brands w (arg_brandId c) \<noteq> None"
    and twice: "count_list (extracted (map Data rows)) cd = 2" and new: "cd \<notin> stored w"
    and run: "processBulkUpload svc healthy jid \<lparr>as_csv = map Data rows, as_xlsx = x\<rparr> ''csv''
               c t0 t1 w = (out, w')"
  shows "\<exists>res. out = Inr res \<and>
     successful res = 1 + int (card (set (extracted (map Data rows)) - {cd} - stored w)) \<and>
     duplicates res = 1 + (int (length (removeAll cd (extracted (map Data rows)))) -
        int (card (set (extracted (map Data rows)) - {cd} - stored w))) \<and>
     cd \<in> stored w'"
proof -
  define E where "E = extracted (map Data rows)"
  from csv_run_healthy [OF job br run]
  obtain res where res: "out = Inr res" "successful res = int (card (set E - stored w))"
    "duplicates res = int (length E) - successful res" "stored w' = stored w \<union> set E"
    unfolding E_def by blast
  have mem: "cd \<in> set E" using twice unfolding E_def [symmetric]
    by (metis count_list_0_iff zero_neq_numeral)
  have "set E - stored w = insert cd (set E - {cd} - stored w)" using mem new by blast
  moreover have "cd \<notin> set E - {cd} - stored w" by blast
  ultimately have c: "card (set E - stored w) = Suc (card (set E - {cd} - stored w))"
    by (metis List.finite_set card_insert_disjoint finite_Diff)
  have "length E = length (removeAll cd E) + count_list E cd"
    by (induction E) simp_all
  then have l: "int (length E) = int (length (removeAll cd E)) + 2"
    using twice unfolding E_def [symmetric] by simp
  show ?thesis
    using res c l mem unfolding E_def [symmetric] by (intro exI [of _ res]) simp
qed

subsection \<open>A run does not read the stored status\<close>












text \<open>
  The equations that evaluate a run on a concrete input; the percentage is computed
  with integer division.
\<close>

lemma percent_div: "0 < t \<Longrightarrow> percent p t = (200 * p + t) div (2 * t)"
proof -
  assume t: "0 < t"
  have "(of_int p / of_int t * 100 + 1 / 2 :: rat) = of_int (200 * p + t) / of_int (2 * t)"
    using t by (simp add: field_simps)
  then show ?thesis
    unfolding percent_def math_round_def by (simp only: floor_divide_of_int_eq)
qed

lemmas run_defs = processBulkUpload_def findOne_def save_def set_status_def set_startTime_def
  set_endTime_def set_duration_def stamp_end_def write_modified_def emitProgress_def
  run_reader_def processCSV_def processExcel_def csv_on_data_def csv_on_end_def excel_row_def
  processBatch_def report_batch_def updateProgress_def assign_def recompute_def percent_div
  insertMany_def complete_job_def fail_job_def addError_def
  extractCode_def candidate_def column_names_def get_key_def first_value_def truthy_def
  trim_def is_space_def keep_or_drop_def row_failed_def push_code_def add_stats_def result_of_def
  init_locals_def bulkUploadService_def healthy_def new_job_def new_progress_def
  length_message_def empty_message_def Let_def

section \<open>The claims\<close>

subsection \<open>Extraction\<close>

text \<open>
  Claim C6, as the code has it. \<open>extractCode\<close> returns no code exactly when the row
  has no candidate or the candidate is the empty string before trimming; it throws,
  always with the length message, exactly when a non-empty candidate has a trimmed
  length outside 3 to 100, which includes a candidate of white space only; otherwise
  it returns the trimmed candidate, of length 3 to 100. In the handler of the CSV
  reader either failure adds one error under the number of the row and one to the
  failure count, leaves the batch as it is and lets the reader go on.
\<close>

theorem extraction_failures:
  "(extractCode r = Inr None \<longleftrightarrow> \<not> truthy (candidate r)) \<and>
   (extractCode r = Inl e \<longleftrightarrow>
      e = Error length_message \<and>
      (\<exists>s. candidate r = Some s \<and> s \<noteq> [] \<and> (length (trim s) < 3 \<or> 100 < length (trim s)))) \<and>
   (extractCode r = Inr (Some t) \<longleftrightarrow>
      (\<exists>s. candidate r = Some s \<and> s \<noteq> [] \<and> t = trim s \<and> 3 \<le> length t \<and> length t \<le> 100)) \<and>
   (extractCode r = Inl (Error m) \<longrightarrow>
      csv_on_data svc f c r l w d =
        (Inr (l\<lparr>row_counter := row_counter l + 1,
               row_errors := row_errors l @ [\<lparr>row = row_counter l + 1, err_code = [], error = m\<rparr>],
               failedCount := failedCount l + 1\<rparr>), w, d)) \<and>
   (extractCode r = Inr None \<longrightarrow> length (codes l) < BATCH_SIZE svc \<longrightarrow>
      csv_on_data svc f c r l w d =
        (Inr (l\<lparr>row_counter := row_counter l + 1,
               row_errors := row_errors l @
                 [\<lparr>row = row_counter l + 1, err_code = [], error = empty_message\<rparr>],
               failedCount := failedCount l + 1\<rparr>), w, d))"
proof (intro conjI impI)
  show "extractCode r = Inr None \<longleftrightarrow> \<not> truthy (candidate r)"
    by (auto simp: extractCode_def truthy_def Let_def split: option.splits)
  show "extractCode r = Inl e \<longleftrightarrow>
      e = Error length_message \<and>
      (\<exists>s. candidate r = Some s \<and> s \<noteq> [] \<and> (length (trim s) < 3 \<or> 100 < length (trim s)))"
    by (auto simp: extractCode_def Let_def split: option.splits)
  show "extractCode r = Inr (Some t) \<longleftrightarrow>
      (\<exists>s. candidate r = Some s \<and> s \<noteq> [] \<and> t = trim s \<and> 3 \<le> length t \<and> length t \<le> 100)"
    by (auto simp: extractCode_def Let_def split: option.splits)
next
  assume "extractCode r = Inl (Error m)"
  then show "csv_on_data svc f c r l w d =
        (Inr (l\<lparr>row_counter := row_counter l + 1,
               row_errors := row_errors l @ [\<lparr>row = row_counter l + 1, err_code = [], error = m\<rparr>],
               failedCount := failedCount l + 1\<rparr>), w, d)"
    by (simp add: csv_on_data_def Let_def row_failed_def)
next
  assume "extractCode r = Inr None" and "length (codes l) < BATCH_SIZE svc"
  then show "csv_on_data svc f c r l w d =
        (Inr (l\<lparr>row_counter := row_counter l + 1,
               row_errors := row_errors l @
                 [\<lparr>row = row_counter l + 1, err_code = [], error = empty_message\<rparr>],
               failedCount := failedCount l + 1\<rparr>), w, d)"
    by (simp add: csv_on_data_def Let_def row_failed_def keep_or_drop_def)
qed

theorem extraction_failures_witness:
  "extractCode [(''code'', Some ''XY'')] = Inl (Error length_message) \<and>
   csv_on_data bulkUploadService healthy example_call [(''code'', Some ''XY'')] init_locals
     example_world \<lparr>content = example_job, modified = {}\<rparr> =
     (Inr (init_locals\<lparr>row_counter := 1,
        row_errors := [\<lparr>row = 1, err_code = [], error = length_message\<rparr>],
        failedCount := 1\<rparr>), example_world, \<lparr>content = example_job, modified = {}\<rparr>) \<and>
   extractCode [(''code'', Some [])] = Inr None \<and>
   length (codes init_locals) < BATCH_SIZE bulkUploadService \<and>
   csv_on_data bulkUploadService healthy example_call [(''code'', Some [])] init_locals
     example_world \<lparr>content = example_job, modified = {}\<rparr> =
     (Inr (init_locals\<lparr>row_counter := 1,
        row_errors := [\<lparr>row = 1, err_code = [], error = empty_message\<rparr>],
        failedCount := 1\<rparr>), example_world, \<lparr>content = example_job, modified = {}\<rparr>)"
proof -
  have a: "extractCode [(''code'', Some ''XY'')] = Inl (Error length_message)"
    by (simp add: extractCode_def candidate_def column_names_def get_key_def first_value_def
        truthy_def trim_def is_space_def)
  have b: "extractCode [(''code'', Some [])] = Inr None"
    by (simp add: extractCode_def candidate_def column_names_def get_key_def first_value_def
        truthy_def)
  have c: "length (codes init_locals) < BATCH_SIZE bulkUploadService"
    by (simp add: init_locals_def bulkUploadService_def)
  note t1 = extraction_failures [of "[(''code'', Some ''XY'')]" "Error length_message" "[]"
      length_message bulkUploadService healthy example_call init_locals example_world
      "\<lparr>content = example_job, modified = {}\<rparr>"]
  note t2 = extraction_failures [of "[(''code'', Some [])]" "Error length_message" "[]"
      length_message bulkUploadService healthy example_call init_locals example_world
      "\<lparr>content = example_job, modified = {}\<rparr>"]
  show ?thesis using a b c t1 t2 by (simp add: init_locals_def)
qed

text \<open>
  Claim C6 as stated fails for a cell of three spaces: it is empty after trimming,
  and the failure is the length error, not the missing-code one.
\<close>

theorem extraction_whitespace_counterexample:
  "trim ''   '' = [] \<and>
   extractCode [(''code'', Some ''   '')] = Inl (Error ''Code length must be between 3-100 characters'')"
  by (simp add: extractCode_def candidate_def column_names_def get_key_def first_value_def
      truthy_def trim_def is_space_def length_message_def)

subsection \<open>Cancelling\<close>

text \<open>
  Claim C7. A cancel request for a job that is neither pending nor processing, so in
  particular for a completed or failed one, leaves the whole database as it is, and
  answers the owner with status 400 and the message that the job cannot be
  cancelled; a request is answered with success exactly when the owner sends it for a
  pending or processing job.
\<close>

theorem cancel_terminal_job_rejected:
  assumes "jobs w jid = Some j"
  shows "(status j \<notin> {Pending, Processing} \<longrightarrow>
           snd (cancelBulkUpload jid uid now w) = w \<and>
           (userId j = uid \<longrightarrow> fst (cancelBulkUpload jid uid now w) =
              Response 400 False (''Cannot cancel '' @ status_name (status j) @ '' job'') None))
       \<and> ((\<exists>m x. fst (cancelBulkUpload jid uid now w) = Response 200 True m x) \<longleftrightarrow>
            userId j = uid \<and> status j \<in> {Pending, Processing})"
  using assms by (auto simp: cancelBulkUpload_def findOne_def split: prod.splits)

theorem cancel_terminal_job_rejected_witness:
  "jobs done_world ''job-1'' = Some done_job \<and> status done_job = Completed \<and>
   userId done_job = ''user-1'' \<and>
   cancelBulkUpload ''job-1'' ''user-1'' 5000 done_world =
     (Response 400 False ''Cannot cancel completed job'' None, done_world)"
proof -
  have h: "jobs done_world ''job-1'' = Some done_job"
    by (simp add: done_world_def)
  have s: "status done_job = Completed" "userId done_job = ''user-1''"
    by (simp_all add: done_job_def example_job_def new_job_def)
  from cancel_terminal_job_rejected [OF h, of "''user-1''" 5000] s
  have "snd (cancelBulkUpload ''job-1'' ''user-1'' 5000 done_world) = done_world"
    and "fst (cancelBulkUpload ''job-1'' ''user-1'' 5000 done_world) =
       Response 400 False ''Cannot cancel completed job'' None"
    by (simp_all add: status_name_def)
  then show ?thesis using h s by (simp add: prod_eq_iff)
qed




subsection \<open>The counters\<close>

text \<open>
  Claim C1, as the code has it. In a run on a job whose counters add up, they add up
  in every record the run writes and in the record it leaves: \<open>processed\<close> is the
  sum of \<open>successful\<close>, \<open>failed\<close> and \<open>duplicates\<close>. The rows that the extraction
  drops are in none of the stored counters. The result that the CSV reader returns
  counts them in \<open>failed\<close> and not in \<open>processed\<close>: its \<open>processed\<close> plus the number
  of dropped rows is the sum of the other three, and the stored counters grow by the
  counters of the result, \<open>failed\<close> less the dropped rows.
\<close>

theorem persisted_counters_add_up:
  assumes "jobs w jid = Some j0" and "jobId j0 = jid" and "counters_ok (progress j0)"
    and "processBulkUpload svc f jid file ftype c t0 t1 w = (out, w')"
  shows "(\<forall>s \<in> set (saved w'). s \<in> set (saved w) \<or> counters_ok (progress s)) \<and>
         (\<exists>jf. jobs w' jid = Some jf \<and> counters_ok (progress jf) \<and>
            (\<forall>res. ftype = ''csv'' \<longrightarrow> out = Inr res \<longrightarrow>
               processed res + dropped (as_csv file) =
                 successful res + failed res + duplicates res \<and>
               processed (progress jf) = processed (progress j0) + processed res \<and>
               successful (progress jf) = successful (progress j0) + successful res \<and>
               duplicates (progress jf) = duplicates (progress j0) + duplicates res \<and>
               failed (progress jf) =
                 failed (progress j0) + failed res - dropped (as_csv file)))"
proof -
  have Qn: "\<And>rows. ftype = ''xlsx'' \<Longrightarrow> as_xlsx file = Inr rows \<Longrightarrow>
       counters_ok (recompute ((progress j0)\<lparr>total_count := int (length rows)\<rparr>))"
    using assms(3) by (simp add: counters_ok_def recompute_def)
  from run_summary [of counters_ok, OF stable_counters_ok assms(3) Qn assms(1,2,4)]
  obtain jf w1 w2 d2 where jf: "jobs w' = (jobs w)(jid \<mapsto> jf)" "counters_ok (progress jf)"
    and rr: "run_reader svc f c file ftype w1 \<lparr>content = started t0 j0, modified = {}\<rparr>
               = (out, w2, d2)" "progress jf = progress (content d2)"
    and sv: "\<forall>s \<in> set (saved w'). s \<in> set (saved w) \<or>
       (counters_ok (progress s) \<and> (errors s = errors j0 \<or> s = jf))"
    by blast
  have csv: "processed res + dropped (as_csv file) =
                 successful res + failed res + duplicates res \<and>
               processed (progress jf) = processed (progress j0) + processed res \<and>
               successful (progress jf) = successful (progress j0) + successful res \<and>
               duplicates (progress jf) = duplicates (progress j0) + duplicates res \<and>
               failed (progress jf) =
                 failed (progress j0) + failed res - dropped (as_csv file)"
    if ft: "ftype = ''csv''" and out: "out = Inr res" for res
  proof -
    have "brands w1 (arg_brandId c) \<noteq> None"
      using rr(1) out by (auto simp: run_reader_def split: if_splits)
    with rr(1) ft out have ce: "csv_events svc f c (as_csv file) init_locals w1
        \<lparr>content = started t0 j0, modified = {}\<rparr> = (Inr res, w2, d2)"
      by (simp add: run_reader_def processCSV_def)
    have ah: "ahead init_locals (progress (content \<lparr>content = started t0 j0, modified = {}\<rparr>))
        (processed (progress j0)) (successful (progress j0)) (failed (progress j0))
        (duplicates (progress j0))"
      by (simp add: ahead_def init_locals_def started_def)
    from csv_events_ahead [OF ce ah] rr(2) jf(2) assms(3)
    show ?thesis by (simp add: counters_ok_def)
  qed
  show ?thesis
  proof (intro conjI)
    show "\<forall>s \<in> set (saved w'). s \<in> set (saved w) \<or> counters_ok (progress s)"
      using sv by blast
    show "\<exists>jf. jobs w' jid = Some jf \<and> counters_ok (progress jf) \<and>
            (\<forall>res. ftype = ''csv'' \<longrightarrow> out = Inr res \<longrightarrow>
               processed res + dropped (as_csv file) =
                 successful res + failed res + duplicates res \<and>
               processed (progress jf) = processed (progress j0) + processed res \<and>
               successful (progress jf) = successful (progress j0) + successful res \<and>
               duplicates (progress jf) = duplicates (progress j0) + duplicates res \<and>
               failed (progress jf) =
                 failed (progress j0) + failed res - dropped (as_csv file))"
      using jf csv by (intro exI [of _ jf]) simp
  qed
qed

theorem persisted_counters_add_up_witness:
  "jobs example_world ''job-1'' = Some example_job \<and> jobId example_job = ''job-1'' \<and>
   counters_ok (progress example_job) \<and> dropped (as_csv half_upload) = 1 \<and>
   map progress (saved (snd (processBulkUpload bulkUploadService healthy ''job-1'' half_upload
      ''csv'' example_call 1000 3000 example_world))) =
     [new_progress,
      \<lparr>processed = 1, successful = 1, failed = 0, duplicates = 0, total_count = 0, percentage = 0\<rparr>,
      \<lparr>processed = 1, successful = 1, failed = 0, duplicates = 0, total_count = 0, percentage = 0\<rparr>] \<and>
   counters_ok \<lparr>processed = 1, successful = 1, failed = 0, duplicates = 0, total_count = 0,
      percentage = 0\<rparr>"
proof -
  have h1: "jobs example_world ''job-1'' = Some example_job"
    by (simp add: example_world_def)
  have h2: "jobId example_job = ''job-1''" by (simp add: example_job_def new_job_def)
  have h3: "counters_ok (progress example_job)"
    by (simp add: example_job_def new_job_def new_progress_def counters_ok_def)
  have h4: "processBulkUpload bulkUploadService healthy ''job-1'' half_upload ''csv''
      example_call 1000 3000 example_world =
     (fst (processBulkUpload bulkUploadService healthy ''job-1'' half_upload ''csv''
         example_call 1000 3000 example_world),
      snd (processBulkUpload bulkUploadService healthy ''job-1'' half_upload ''csv''
         example_call 1000 3000 example_world))"
    by simp
  have dr: "dropped (as_csv half_upload) = 1"
    by (simp add: half_upload_def half_rows_def extractCode_def candidate_def column_names_def
        get_key_def first_value_def truthy_def trim_def is_space_def)
  have ev: "map progress (saved (snd (processBulkUpload bulkUploadService healthy ''job-1''
      half_upload ''csv'' example_call 1000 3000 example_world))) =
     [new_progress,
      \<lparr>processed = 1, successful = 1, failed = 0, duplicates = 0, total_count = 0, percentage = 0\<rparr>,
      \<lparr>processed = 1, successful = 1, failed = 0, duplicates = 0, total_count = 0, percentage = 0\<rparr>]"
    by (simp add: run_defs example_world_def example_job_def example_call_def half_rows_def
      half_upload_def)
  from persisted_counters_add_up [OF h1 h2 h3 h4]
  have "\<forall>s \<in> set (saved (snd (processBulkUpload bulkUploadService healthy ''job-1''
      half_upload ''csv'' example_call 1000 3000 example_world))).
      s \<in> set (saved example_world) \<or> counters_ok (progress s)" by blast
  then have "\<forall>p \<in> set (map progress (saved (snd (processBulkUpload bulkUploadService healthy
      ''job-1'' half_upload ''csv'' example_call 1000 3000 example_world)))). counters_ok p"
    by (simp add: example_world_def)
  then have "counters_ok \<lparr>processed = 1, successful = 1, failed = 0, duplicates = 0,
      total_count = 0, percentage = 0\<rparr>"
    unfolding ev by simp
  with h1 h2 h3 dr ev show ?thesis by blast
qed

text \<open>
  Claim C1 as stated fails for a CSV file of a row without a code and a row with a
  new code: the result has \<open>processed = 1\<close> and \<open>failed = 1\<close> beside one success,
  and the stored \<open>failed\<close> is 0.
\<close>

theorem dropped_rows_counterexample:
  "fst (processBulkUpload bulkUploadService healthy ''job-1'' half_upload ''csv'' example_call
      1000 3000 example_world) =
     Inr \<lparr>processed = 1, successful = 1, failed = 1, duplicates = 0,
          result_errors = [\<lparr>row = 1, err_code = [], error = ''Empty or missing code''\<rparr>]\<rparr> \<and>
   map_option progress (jobs (snd (processBulkUpload bulkUploadService healthy ''job-1''
      half_upload ''csv'' example_call 1000 3000 example_world)) ''job-1'') =
     Some \<lparr>processed = 1, successful = 1, failed = 0, duplicates = 0, total_count = 0,
           percentage = 0\<rparr>"
  by (simp add: run_defs example_world_def example_job_def example_call_def half_rows_def
      half_upload_def)

subsection \<open>The scenario\<close>

text \<open>
  Claim C2, as the code has it. The CSV reader, with a batch size of at least 4, on a
  new job and a collection without the code \<^verbatim>\<open>ABCDEFGH\<close>, returns for the four rows
  of the scenario 2 processed, 1 successful, 2 failed and 1 duplicate, and leaves the
  job completed with the stored counters 2 processed, 1 successful, 0 failed,
  1 duplicate, total 0 and percentage 0.
\<close>

theorem scenario_csv_run:
  assumes bs: "4 \<le> BATCH_SIZE svc"
    and job: "jobs w jid = Some j0" "jobId j0 = jid" "progress j0 = new_progress"
    and br: "brands w (arg_brandId c) = Some n"
    and fresh: "''ABCDEFGH'' \<notin> doc_code ` set (authCodes w)"
  shows "\<exists>res w'. processBulkUpload svc healthy jid \<lparr>as_csv = map Data scenario_rows, as_xlsx = x\<rparr>
            ''csv'' c t0 t1 w = (Inr res, w') \<and>
          processed res = 2 \<and> successful res = 1 \<and> failed res = 2 \<and> duplicates res = 1 \<and>
          (\<exists>jf. jobs w' jid = Some jf \<and> status jf = Completed \<and>
             progress jf = \<lparr>processed = 2, successful = 1, failed = 0, duplicates = 1,
                            total_count = 0, percentage = 0\<rparr>)"
proof -
  have nb: "\<not> BATCH_SIZE svc \<le> Suc 0" "\<not> BATCH_SIZE svc \<le> 2" "\<not> BATCH_SIZE svc \<le> Suc (Suc 0)"
    using bs by simp_all
  have flt: "filter (\<lambda>a. doc_code a = ''ABCDEFGH'') (authCodes w) = []"
  proof -
    have "\<forall>a \<in> set (authCodes w). doc_code a \<noteq> ''ABCDEFGH''"
      using fresh by (metis image_eqI)
    then show ?thesis by (simp add: filter_empty_conv)
  qed
  show ?thesis
    using job br fresh nb flt
    by (simp add: processBulkUpload_def findOne_def save_def set_status_def set_startTime_def
        set_endTime_def set_duration_def write_modified_def emitProgress_def
        run_reader_def processCSV_def csv_on_data_def csv_on_end_def
        processBatch_def report_batch_def updateProgress_def assign_def recompute_def
        insertMany_def complete_job_def extractCode_def candidate_def column_names_def
        get_key_def first_value_def truthy_def trim_def is_space_def keep_or_drop_def
        row_failed_def push_code_def add_stats_def result_of_def init_locals_def healthy_def
        new_progress_def length_message_def empty_message_def Let_def scenario_rows_def)
qed

theorem scenario_csv_run_witness:
  "4 \<le> BATCH_SIZE bulkUploadService \<and> jobs example_world ''job-1'' = Some example_job \<and>
   jobId example_job = ''job-1'' \<and> progress example_job = new_progress \<and>
   brands example_world (arg_brandId example_call) = Some 0 \<and>
   ''ABCDEFGH'' \<notin> doc_code ` set (authCodes example_world) \<and>
   (\<exists>res w'. processBulkUpload bulkUploadService healthy ''job-1'' scenario_upload ''csv''
        example_call 1000 3000 example_world = (Inr res, w') \<and>
      processed res = 2 \<and> successful res = 1 \<and> failed res = 2 \<and> duplicates res = 1 \<and>
      (\<exists>jf. jobs w' ''job-1'' = Some jf \<and> status jf = Completed \<and>
         progress jf = \<lparr>processed = 2, successful = 1, failed = 0, duplicates = 1,
                        total_count = 0, percentage = 0\<rparr>))"
proof -
  have h1: "4 \<le> BATCH_SIZE bulkUploadService" by (simp add: bulkUploadService_def)
  have h2: "jobs example_world ''job-1'' = Some example_job" by (simp add: example_world_def)
  have h3: "jobId example_job = ''job-1''" by (simp add: example_job_def new_job_def)
  have h4: "progress example_job = new_progress" by (simp add: example_job_def new_job_def)
  have h5: "brands example_world (arg_brandId example_call) = Some 0"
    by (simp add: example_world_def example_call_def)
  have h6: "''ABCDEFGH'' \<notin> doc_code ` set (authCodes example_world)"
    by (simp add: example_world_def)
  note t = scenario_csv_run [OF h1 h2 h3 h4 h5 h6, of "Inr scenario_rows" 1000 3000]
  show ?thesis using h1 h2 h3 h4 h5 h6 t unfolding scenario_upload_def by blast
qed

text \<open>
  Claim C2 as stated fails under both readers: the CSV reader leaves total and
  percentage 0, and the spreadsheet reader, whose last row fails the extraction,
  writes no batch at all and leaves every counter but the total 0.
\<close>

theorem scenario_counterexample:
  "map_option progress (jobs (snd (processBulkUpload bulkUploadService healthy ''job-1''
      scenario_upload ''csv'' example_call 1000 3000 example_world)) ''job-1'') =
     Some \<lparr>processed = 2, successful = 1, failed = 0, duplicates = 1, total_count = 0,
           percentage = 0\<rparr> \<and>
   fst (processBulkUpload bulkUploadService healthy ''job-1'' scenario_upload ''xlsx''
      example_call 1000 3000 example_world) =
     Inr \<lparr>processed = 0, successful = 0, failed = 2, duplicates = 0,
          result_errors =
            [\<lparr>row = 4, err_code = [], error = ''Empty or missing code''\<rparr>,
             \<lparr>row = 5, err_code = [],
                error = ''Code length must be between 3-100 characters''\<rparr>]\<rparr> \<and>
   map_option progress (jobs (snd (processBulkUpload bulkUploadService healthy ''job-1''
      scenario_upload ''xlsx'' example_call 1000 3000 example_world)) ''job-1'') =
     Some \<lparr>processed = 0, successful = 0, failed = 0, duplicates = 0, total_count = 4,
           percentage = 0\<rparr>"
  by (simp add: run_defs example_world_def example_job_def example_call_def scenario_rows_def
      scenario_upload_def)

subsection \<open>Write errors\<close>




subsection \<open>The same code twice\<close>

text \<open>
  Claim C5 wants one success and one duplicate for a new code that a file holds
  twice. The CSV reader gives that for every file (\<open>csv_same_code_twice\<close>). The
  spreadsheet reader does not when the last row fails the extraction: the test for
  the last row is skipped with the rest of the \<^verbatim>\<open>try\<close> block, the batch is never
  written, and the run completes with no success, no duplicate and an empty
  collection, where the CSV reader returns one of each for the same rows.
\<close>

theorem spreadsheet_drops_unflushed_batch:
  "fst (processBulkUpload bulkUploadService healthy ''job-1'' lost_upload ''xlsx'' example_call
      1000 3000 example_world) =
     Inr \<lparr>processed = 0, successful = 0, failed = 1, duplicates = 0,
          result_errors = [\<lparr>row = 4, err_code = [],
             error = ''Code length must be between 3-100 characters''\<rparr>]\<rparr> \<and>
   authCodes (snd (processBulkUpload bulkUploadService healthy ''job-1'' lost_upload ''xlsx''
      example_call 1000 3000 example_world)) = [] \<and>
   map_option status (jobs (snd (processBulkUpload bulkUploadService healthy ''job-1'' lost_upload
      ''xlsx'' example_call 1000 3000 example_world)) ''job-1'') = Some Completed \<and>
   fst (processBulkUpload bulkUploadService healthy ''job-1'' lost_upload ''csv'' example_call
      1000 3000 example_world) =
     Inr \<lparr>processed = 2, successful = 1, failed = 1, duplicates = 1,
          result_errors = [\<lparr>row = 3, err_code = [],
             error = ''Code length must be between 3-100 characters''\<rparr>]\<rparr>"
  by (simp add: run_defs example_world_def example_job_def example_call_def lost_rows_def
      lost_upload_def)

subsection \<open>The percentage\<close>



text \<open>
  Claim C9. A run of the CSV reader on a job that starts with total and percentage 0
  never changes either: they are 0 in every record the run writes and in the record
  it leaves, whatever the file holds.
\<close>

theorem csv_percentage_stays_zero:
  assumes "jobs w jid = Some j0" and "jobId j0 = jid"
    and "total_count (progress j0) = 0" and "percentage (progress j0) = 0"
    and "processBulkUpload svc f jid file ''csv'' c t0 t1 w = (out, w')"
  shows "(\<forall>s \<in> set (saved w'). s \<in> set (saved w) \<or>
            (total_count (progress s) = 0 \<and> percentage (progress s) = 0)) \<and>
         (\<exists>jf. jobs w' jid = Some jf \<and> total_count (progress jf) = 0 \<and>
            percentage (progress jf) = 0)"
proof -
  have Q0: "(\<lambda>p. total_count p = 0 \<and> percentage p = 0) (progress j0)" using assms(3,4) by simp
  have Qn: "\<And>rows. ''csv'' = ''xlsx'' \<Longrightarrow> as_xlsx file = Inr rows \<Longrightarrow>
       (\<lambda>p. total_count p = 0 \<and> percentage p = 0)
         (recompute ((progress j0)\<lparr>total_count := int (length rows)\<rparr>))"
    by simp
  from run_summary [of "\<lambda>p. total_count p = 0 \<and> percentage p = 0", OF stable_zero Q0 Qn assms(1,2,5)]
  obtain jf where "jobs w' = (jobs w)(jid \<mapsto> jf)"
    "total_count (progress jf) = 0 \<and> percentage (progress jf) = 0"
    "\<forall>s \<in> set (saved w'). s \<in> set (saved w) \<or>
       ((total_count (progress s) = 0 \<and> percentage (progress s) = 0) \<and>
        (errors s = errors j0 \<or> s = jf))"
    by blast
  then show ?thesis by auto
qed

theorem csv_percentage_stays_zero_witness:
  "jobs example_world ''job-1'' = Some example_job \<and> jobId example_job = ''job-1'' \<and>
   total_count (progress example_job) = 0 \<and> percentage (progress example_job) = 0 \<and>
   map progress (saved (snd (processBulkUpload bulkUploadService healthy ''job-1'' scenario_upload
      ''csv'' example_call 1000 3000 example_world))) =
     [new_progress,
      \<lparr>processed = 2, successful = 1, failed = 0, duplicates = 1, total_count = 0, percentage = 0\<rparr>,
      \<lparr>processed = 2, successful = 1, failed = 0, duplicates = 1, total_count = 0, percentage = 0\<rparr>]"
proof -
  have h1: "jobs example_world ''job-1'' = Some example_job"
    by (simp add: example_world_def)
  have h2: "jobId example_job = ''job-1''" by (simp add: example_job_def new_job_def)
  have h3: "total_count (progress example_job) = 0"
    by (simp add: example_job_def new_job_def new_progress_def)
  have h4: "percentage (progress example_job) = 0"
    by (simp add: example_job_def new_job_def new_progress_def)
  have h5: "processBulkUpload bulkUploadService healthy ''job-1'' scenario_upload ''csv''
      example_call 1000 3000 example_world =
     (fst (processBulkUpload bulkUploadService healthy ''job-1'' scenario_upload ''csv''
         example_call 1000 3000 example_world),
      snd (processBulkUpload bulkUploadService healthy ''job-1'' scenario_upload ''csv''
         example_call 1000 3000 example_world))"
    by simp
  have ev: "map progress (saved (snd (processBulkUpload bulkUploadService healthy ''job-1''
      scenario_upload ''csv'' example_call 1000 3000 example_world))) =
     [new_progress,
      \<lparr>processed = 2, successful = 1, failed = 0, duplicates = 1, total_count = 0, percentage = 0\<rparr>,
      \<lparr>processed = 2, successful = 1, failed = 0, duplicates = 1, total_count = 0, percentage = 0\<rparr>]"
    by (simp add: run_defs example_world_def example_job_def example_call_def scenario_rows_def
      scenario_upload_def)
  note t = csv_percentage_stays_zero [OF h1 h2 h3 h4 h5]
  show ?thesis using h1 h2 h3 h4 ev t by blast
qed

subsection \<open>The stored error list\<close>



end
